theory Spec2Isabelle
  imports Complex_Main "HOL-Library.AList" "HOL-Library.Log_Nat"
begin

section \<open>Python values\<close>

text \<open>
  The provider's payloads are decoded JSON: \<open>None\<close>, \<open>bool\<close>, \<open>int\<close>, \<open>float\<close>, \<open>str\<close>,
  \<open>list\<close> and \<open>dict\<close> objects. A float is represented by the rational number it denotes
  (a finite double; NaN and the infinities, which standard JSON cannot express, are left
  out). A dict is an association list in insertion order, read with \<open>map_of\<close>; Python
  dicts have distinct keys.
\<close>

datatype json =
    JNull
  | JBool bool
  | JInt int
  | JFloat rat
  | JStr string
  | JList "json list"
  | JDict "(string \<times> json) list"

datatype exc_class =
    KeyError | AttributeError | TypeError | ValueError | IndexError
  | ZeroDivisionError | OverflowError | RequestException | HTTPError | JSONDecodeError
  | IntegrityError | OperationalError

text \<open>
  An exception is either FastAPI's \<open>HTTPException(status_code, detail)\<close> or any other
  Python exception, with its class and the text \<open>str(e)\<close>.
\<close>

datatype exc = HTTPException nat string | PyError exc_class string

definition bindE :: "exc + 'a \<Rightarrow> ('a \<Rightarrow> exc + 'b) \<Rightarrow> exc + 'b" where
  "bindE m f = (case m of Inl e \<Rightarrow> Inl e | Inr x \<Rightarrow> f x)"

fun mapE :: "('a \<Rightarrow> exc + 'b) \<Rightarrow> 'a list \<Rightarrow> exc + 'b list" where
  "mapE f [] = Inr []"
| "mapE f (x # xs) =
     (case f x of Inl e \<Rightarrow> Inl e
      | Inr y \<Rightarrow> (case mapE f xs of Inl e \<Rightarrow> Inl e | Inr ys \<Rightarrow> Inr (y # ys)))"

definition quoted :: "string \<Rightarrow> string" where
  "quoted s = [CHR 0x27] @ s @ [CHR 0x27]"

fun type_name :: "json \<Rightarrow> string" where
  "type_name JNull = ''NoneType''"
| "type_name (JBool b) = ''bool''"
| "type_name (JInt i) = ''int''"
| "type_name (JFloat r) = ''float''"
| "type_name (JStr s) = ''str''"
| "type_name (JList xs) = ''list''"
| "type_name (JDict d) = ''dict''"

definition no_attribute :: "json \<Rightarrow> string \<Rightarrow> exc" where
  "no_attribute v a =
     PyError AttributeError (quoted (type_name v) @ '' object has no attribute '' @ quoted a)"

definition not_subscriptable :: "json \<Rightarrow> exc" where
  "not_subscriptable v = PyError TypeError (quoted (type_name v) @ '' object is not subscriptable'')"

text \<open>Truth value of an object, as \<open>if x\<close> and \<open>not x\<close> test it.\<close>

fun py_truthy :: "json \<Rightarrow> bool" where
  "py_truthy JNull = False"
| "py_truthy (JBool b) = b"
| "py_truthy (JInt i) = (i \<noteq> 0)"
| "py_truthy (JFloat r) = (r \<noteq> 0)"
| "py_truthy (JStr s) = (s \<noteq> [])"
| "py_truthy (JList xs) = (xs \<noteq> [])"
| "py_truthy (JDict d) = (d \<noteq> [])"

text \<open>Truth value of an \<open>Optional[str]\<close> argument: \<open>None\<close> and the empty string are false.\<close>

fun str_truthy :: "string option \<Rightarrow> bool" where
  "str_truthy None = False"
| "str_truthy (Some s) = (s \<noteq> [])"

text \<open>
  Python's \<open>==\<close> on these objects: numbers (with \<open>bool\<close>) compare by value across their
  types, strings and \<open>None\<close> only with their own kind, lists element by element, dicts as
  maps.
\<close>

fun num_val :: "json \<Rightarrow> rat option" where
  "num_val (JBool b) = Some (if b then 1 else 0)"
| "num_val (JInt i) = Some (of_int i)"
| "num_val (JFloat r) = Some r"
| "num_val _ = None"

fun py_eq :: "json \<Rightarrow> json \<Rightarrow> bool" where
  "py_eq JNull JNull = True"
| "py_eq (JStr a) (JStr b) = (a = b)"
| "py_eq (JList xs) (JList ys) = list_all2 py_eq xs ys"
| "py_eq (JDict ps) (JDict qs) = (length ps = length qs \<and>
     list_all (\<lambda>(k, v). case map_of qs k of None \<Rightarrow> False | Some w \<Rightarrow> py_eq v w) ps)"
| "py_eq a b = (case (num_val a, num_val b) of (Some x, Some y) \<Rightarrow> x = y | _ \<Rightarrow> False)"

text \<open>\<open>x.get(k, default)\<close>: only a dict has the method.\<close>

fun py_get :: "json \<Rightarrow> string \<Rightarrow> json \<Rightarrow> exc + json" where
  "py_get (JDict d) k dflt = Inr (case map_of d k of Some v \<Rightarrow> v | None \<Rightarrow> dflt)"
| "py_get v k dflt = Inl (no_attribute v ''get'')"

text \<open>\<open>x[k]\<close> with a string key.\<close>

fun py_getitem :: "json \<Rightarrow> string \<Rightarrow> exc + json" where
  "py_getitem (JDict d) k =
     (case map_of d k of Some v \<Rightarrow> Inr v | None \<Rightarrow> Inl (PyError KeyError (quoted k)))"
| "py_getitem (JList xs) k =
     Inl (PyError TypeError ''list indices must be integers or slices, not str'')"
| "py_getitem (JStr s) k =
     Inl (PyError TypeError (''string indices must be integers, not '' @ quoted ''str''))"
| "py_getitem v k = Inl (not_subscriptable v)"

text \<open>\<open>x[i]\<close> with a literal index \<open>i \<ge> 0\<close>.\<close>

fun show_nat :: "nat \<Rightarrow> string" where
  "show_nat n = (if n < 10 then [char_of (48 + n)]
                 else show_nat (n div 10) @ [char_of (48 + n mod 10)])"

declare show_nat.simps [simp del]

definition show_int :: "int \<Rightarrow> string" where
  "show_int i = (if i < 0 then ''-'' @ show_nat (nat (- i)) else show_nat (nat i))"

fun py_getitem_int :: "json \<Rightarrow> nat \<Rightarrow> exc + json" where
  "py_getitem_int (JList xs) i =
     (if i < length xs then Inr (xs ! i) else Inl (PyError IndexError ''list index out of range''))"
| "py_getitem_int (JDict d) i = Inl (PyError KeyError (show_nat i))"
| "py_getitem_int (JStr s) i =
     (if i < length s then Inr (JStr [s ! i])
      else Inl (PyError IndexError ''string index out of range''))"
| "py_getitem_int v i = Inl (not_subscriptable v)"

text \<open>\<open>k in x\<close> for a string \<open>k\<close>: key of a dict, element of a list, substring of a string.\<close>

fun is_prefix :: "string \<Rightarrow> string \<Rightarrow> bool" where
  "is_prefix [] s = True"
| "is_prefix (c # k) [] = False"
| "is_prefix (c # k) (d # s) = (c = d \<and> is_prefix k s)"

fun is_substring :: "string \<Rightarrow> string \<Rightarrow> bool" where
  "is_substring k [] = (k = [])"
| "is_substring k (d # s) = (is_prefix k (d # s) \<or> is_substring k s)"

fun py_contains :: "string \<Rightarrow> json \<Rightarrow> exc + bool" where
  "py_contains k (JDict d) = Inr (k \<in> set (map fst d))"
| "py_contains k (JList xs) = Inr (list_ex (py_eq (JStr k)) xs)"
| "py_contains k (JStr s) = Inr (is_substring k s)"
| "py_contains k v =
     Inl (PyError TypeError (''argument of type '' @ quoted (type_name v) @ '' is not iterable''))"

text \<open>\<open>x.copy()\<close>: a shallow copy of a dict or a list; the other objects have no such method.\<close>

fun py_copy :: "json \<Rightarrow> exc + json" where
  "py_copy (JDict d) = Inr (JDict d)"
| "py_copy (JList xs) = Inr (JList xs)"
| "py_copy v = Inl (no_attribute v ''copy'')"

text \<open>
  \<open>x[k] = v\<close> with a string key: a dict replaces the value of an existing key in place and
  appends a new key.
\<close>

fun py_setitem :: "json \<Rightarrow> string \<Rightarrow> json \<Rightarrow> exc + json" where
  "py_setitem (JDict d) k v = Inr (JDict (AList.update k v d))"
| "py_setitem (JList xs) k v =
     Inl (PyError TypeError ''list indices must be integers or slices, not str'')"
| "py_setitem x k v =
     Inl (PyError TypeError (quoted (type_name x) @ '' object does not support item assignment''))"

text \<open>\<open>for x in v\<close>: the elements of a list, the keys of a dict, the characters of a string.\<close>

definition not_iterable :: "json \<Rightarrow> exc" where
  "not_iterable v = PyError TypeError (quoted (type_name v) @ '' object is not iterable'')"

fun py_iter :: "json \<Rightarrow> exc + json list" where
  "py_iter (JList xs) = Inr xs"
| "py_iter (JDict d) = Inr (map (\<lambda>(k, v). JStr k) d)"
| "py_iter (JStr s) = Inr (map (\<lambda>c. JStr [c]) s)"
| "py_iter v = Inl (not_iterable v)"

fun py_len :: "json \<Rightarrow> exc + nat" where
  "py_len (JList xs) = Inr (length xs)"
| "py_len (JDict d) = Inr (length d)"
| "py_len (JStr s) = Inr (length s)"
| "py_len v = Inl (PyError TypeError (''object of type '' @ quoted (type_name v) @ '' has no len()''))"

text \<open>
  \<open>str(x)\<close>, also what an f-string inserts. The text of a float, a list or a dict is their
  \<open>repr\<close>, which is taken as a parameter.
\<close>

fun py_str :: "(json \<Rightarrow> string) \<Rightarrow> json \<Rightarrow> string" where
  "py_str repr (JStr s) = s"
| "py_str repr (JInt i) = show_int i"
| "py_str repr JNull = ''None''"
| "py_str repr (JBool b) = (if b then ''True'' else ''False'')"
| "py_str repr v = repr v"

text \<open>\<open>sep.join(xs)\<close>.\<close>

fun join :: "string \<Rightarrow> string list \<Rightarrow> string" where
  "join sep [] = []"
| "join sep [x] = x"
| "join sep (x # y # ys) = x @ sep @ join sep (y # ys)"


section \<open>The provider over HTTP\<close>

text \<open>
  A response of the \<open>requests\<close> library: the status code, the text of the \<open>HTTPError\<close> that
  \<open>raise_for_status\<close> raises for it, and the decoded body (or the text of the decoding
  error). \<open>requests.get(url, headers=..., params=...)\<close> is a parameter \<open>rget\<close> of every
  function that calls the provider; it can raise itself. The headers are the same constant
  in every call and are left out.
\<close>

record Response =
  status_code :: nat
  error_text :: string
  body :: "string + json"

type_synonym requests_get = "string \<Rightarrow> (string \<times> json) list \<Rightarrow> exc + Response"

definition raise_for_status :: "Response \<Rightarrow> exc + unit" where
  "raise_for_status r =
     (if 400 \<le> status_code r \<and> status_code r < 600 then Inl (PyError HTTPError (error_text r))
      else Inr ())"

definition response_ok :: "Response \<Rightarrow> bool" where
  "response_ok r = (case raise_for_status r of Inl e \<Rightarrow> False | Inr u \<Rightarrow> True)"

definition response_json :: "Response \<Rightarrow> exc + json" where
  "response_json r = (case body r of Inl msg \<Rightarrow> Inl (PyError JSONDecodeError msg) | Inr v \<Rightarrow> Inr v)"

definition BASE_URL :: string where
  "BASE_URL = ''https://api.pandascore.co''"

definition SUPPORTED_GAMES :: "(string \<times> string) list" where
  "SUPPORTED_GAMES = [(''lol'', ''league-of-legends''), (''valorant'', ''valorant'')]"

definition unsupported_game :: string where
  "unsupported_game =
     ''Unsupported game. Supported games are: '' @ join '', '' (map fst SUPPORTED_GAMES)"

subsection \<open>\<open>PandaScoreAPI.get_match\<close>\<close>

definition PandaScoreAPI_get_match :: "requests_get \<Rightarrow> string \<Rightarrow> exc + json" where
  "PandaScoreAPI_get_match rget match_id =
     bindE (rget (BASE_URL @ ''/matches/'' @ match_id) []) (\<lambda>response.
     bindE (raise_for_status response) (\<lambda>u.
     response_json response))"

subsection \<open>\<open>PandaScoreAPI.get_matches\<close>\<close>

definition opponent_field :: "json \<Rightarrow> string \<Rightarrow> exc + json" where
  "opponent_field opponent k =
     bindE (py_get opponent ''opponent'' (JDict [])) (\<lambda>ob. py_get ob k JNull)"

definition normalize_opponent :: "json \<Rightarrow> exc + json" where
  "normalize_opponent opponent =
     bindE (opponent_field opponent ''id'') (\<lambda>i.
     bindE (opponent_field opponent ''name'') (\<lambda>n.
     bindE (opponent_field opponent ''image_url'') (\<lambda>u.
     bindE (opponent_field opponent ''acronym'') (\<lambda>a.
     Inr (JDict [(''opponent'',
            JDict [(''id'', i), (''name'', n), (''image_url'', u), (''acronym'', a)])])))))"

definition enhance_match :: "json \<Rightarrow> exc + json" where
  "enhance_match match =
     bindE (py_copy match) (\<lambda>enhanced_match.
     bindE (py_contains ''opponents'' match) (\<lambda>has.
     if has then
       bindE (py_getitem match ''opponents'') (\<lambda>opps.
       bindE (py_iter opps) (\<lambda>os.
       bindE (mapE normalize_opponent os) (\<lambda>ns.
       py_setitem enhanced_match ''opponents'' (JList ns))))
     else Inr enhanced_match))"

definition PandaScoreAPI_get_matches ::
  "requests_get \<Rightarrow> string option \<Rightarrow> string \<Rightarrow> int \<Rightarrow> exc + json list" where
  "PandaScoreAPI_get_matches rget tournament_id status per_page =
     (let params = [(''per_page'', JInt per_page), (''status'', JStr status)]
                   @ (if str_truthy tournament_id
                      then [(''tournament_id'', JStr (the tournament_id))] else [])
      in bindE (rget (BASE_URL @ ''/matches'') params) (\<lambda>response.
         bindE (raise_for_status response) (\<lambda>u.
         bindE (response_json response) (\<lambda>matches.
         bindE (py_iter matches) (\<lambda>ms.
         mapE enhance_match ms)))))"


subsection \<open>\<open>PandaScoreAPI.get_tournaments\<close>\<close>

text \<open>Lines 56 and 57: the slug of a record's videogame, \<open>None\<close> when there is none.\<close>

definition videogame_slug :: "json \<Rightarrow> exc + json" where
  "videogame_slug tournament =
     bindE (py_get tournament ''videogame'' (JDict [])) (\<lambda>videogame.
     case videogame of JDict d \<Rightarrow> py_get videogame ''slug'' JNull | _ \<Rightarrow> Inr JNull)"

definition league_info :: "json \<Rightarrow> exc + json" where
  "league_info tournament =
     bindE (py_getitem tournament ''league'') (\<lambda>league.
     bindE (py_get league ''name'' JNull) (\<lambda>n.
     bindE (py_get league ''image_url'' JNull) (\<lambda>u.
     bindE (py_get league ''region'' JNull) (\<lambda>r.
     Inr (JDict [(''name'', n), (''image_url'', u), (''region'', r)])))))"

definition series_info :: "json \<Rightarrow> exc + json" where
  "series_info tournament =
     bindE (py_getitem tournament ''series'') (\<lambda>series.
     bindE (py_get series ''name'' JNull) (\<lambda>n.
     bindE (py_get series ''season'' JNull) (\<lambda>s.
     Inr (JDict [(''name'', n), (''season'', s)]))))"

definition lol_details :: "json \<Rightarrow> exc + json" where
  "lol_details tournament =
     bindE (py_get tournament ''patch_version'' JNull) (\<lambda>p.
     bindE (py_get tournament ''tournament_type'' (JStr ''Unknown'')) (\<lambda>t.
     bindE (py_get tournament ''region'' (JStr ''International'')) (\<lambda>r.
     Inr (JDict [(''patch_version'', p), (''tournament_type'', t), (''region'', r)]))))"

definition valorant_details :: "json \<Rightarrow> exc + json" where
  "valorant_details tournament =
     bindE (py_get tournament ''patch'' (JStr ''Unknown'')) (\<lambda>p.
     bindE (py_get tournament ''serie_type'' (JStr ''Unknown'')) (\<lambda>t.
     bindE (py_get tournament ''region'' (JStr ''International'')) (\<lambda>r.
     Inr (JDict [(''patch'', p), (''series_type'', t), (''region'', r)]))))"

text \<open>Lines 64 to 93: the copy of a record with the summaries attached.\<close>

definition enhance_tournament :: "string option \<Rightarrow> json \<Rightarrow> exc + json" where
  "enhance_tournament game tournament =
     bindE (py_copy tournament) (\<lambda>e0.
     bindE (py_contains ''league'' tournament) (\<lambda>has_league.
     bindE (if has_league
            then bindE (league_info tournament) (py_setitem e0 ''league_info'')
            else Inr e0) (\<lambda>e1.
     bindE (py_contains ''series'' tournament) (\<lambda>has_series.
     bindE (if has_series
            then bindE (series_info tournament) (py_setitem e1 ''series_info'')
            else Inr e1) (\<lambda>e2.
     if game = Some ''lol''
     then bindE (lol_details tournament) (py_setitem e2 ''game_details'')
     else if game = Some ''valorant''
     then bindE (valorant_details tournament) (py_setitem e2 ''game_details'')
     else Inr e2)))))"

text \<open>
  One turn of the loop of lines 55 to 95: \<open>None\<close> when the record is skipped by
  \<open>continue\<close>, the enhanced record otherwise.
\<close>

definition filter_tournament :: "string option \<Rightarrow> json \<Rightarrow> exc + json option" where
  "filter_tournament game tournament =
     bindE (videogame_slug tournament) (\<lambda>game_slug.
     if str_truthy game \<and> the game \<in> set (map fst SUPPORTED_GAMES)
        \<and> \<not> py_eq game_slug (JStr (the (map_of SUPPORTED_GAMES (the game))))
     then Inr None
     else bindE (enhance_tournament game tournament) (\<lambda>e. Inr (Some e)))"

fun filter_tournaments :: "string option \<Rightarrow> json list \<Rightarrow> json list \<Rightarrow> exc + json list" where
  "filter_tournaments game [] filtered_tournaments = Inr filtered_tournaments"
| "filter_tournaments game (tournament # rest) filtered_tournaments =
     (case filter_tournament game tournament of
        Inl e \<Rightarrow> Inl e
      | Inr None \<Rightarrow> filter_tournaments game rest filtered_tournaments
      | Inr (Some e) \<Rightarrow> filter_tournaments game rest (filtered_tournaments @ [e]))"

definition tournaments_endpoint :: "string option \<Rightarrow> string" where
  "tournaments_endpoint game =
     (if game = Some ''lol'' then BASE_URL @ ''/lol/tournaments''
      else if game = Some ''valorant'' then BASE_URL @ ''/valorant/tournaments''
      else BASE_URL @ ''/tournaments'')"

definition tournaments_params ::
  "string option \<Rightarrow> string \<Rightarrow> int \<Rightarrow> exc + (string \<times> json) list" where
  "tournaments_params game status per_page =
     (let params = [(''per_page'', JInt per_page), (''status'', JStr status)]
      in if str_truthy game \<and> the game \<notin> set [''lol'', ''valorant'']
         then (case map_of SUPPORTED_GAMES (the game) of
                 None \<Rightarrow> Inl (PyError KeyError (quoted (the game)))
               | Some slug \<Rightarrow> Inr (params @ [(''videogame'', JStr slug)]))
         else Inr params)"

definition PandaScoreAPI_get_tournaments ::
  "requests_get \<Rightarrow> string option \<Rightarrow> string \<Rightarrow> int \<Rightarrow> exc + json list" where
  "PandaScoreAPI_get_tournaments rget game status per_page =
     (if str_truthy game \<and> the game \<notin> set (map fst SUPPORTED_GAMES)
      then Inl (PyError ValueError unsupported_game)
      else
        bindE (tournaments_params game status per_page) (\<lambda>params.
        bindE (rget (tournaments_endpoint game) params) (\<lambda>response.
        bindE (raise_for_status response) (\<lambda>u.
        bindE (response_json response) (\<lambda>tournaments.
        bindE (py_iter tournaments) (\<lambda>ts.
        filter_tournaments game ts []))))))"

subsection \<open>Floating point\<close>

text \<open>
  Python's floats are IEEE 754 binary64 numbers, and each operation returns the
  representable number nearest to the exact result, a tie going to the even significand.
  \<open>fl64\<close> is that rounding for a rational of magnitude below \<open>2 ^ 1024\<close>: the spacing of
  the doubles around \<open>x\<close> is \<open>2 ^ (e - 52)\<close> for the exponent \<open>e\<close> of \<open>x\<close>, which is at
  least \<open>- 1022\<close> (below that the numbers are subnormal and equally spaced).
\<close>

definition pow2 :: "int \<Rightarrow> rat" where
  "pow2 e = (if 0 \<le> e then 2 ^ nat e else 1 / 2 ^ nat (- e))"

definition floor_log2 :: "rat \<Rightarrow> int" where
  "floor_log2 x =
     (let (a, b) = quotient_of x; k = bitlen a - bitlen b
      in if pow2 k \<le> x then k else k - 1)"

definition round_half_even :: "rat \<Rightarrow> int" where
  "round_half_even x =
     (let n = \<lfloor>x\<rfloor>; f = x - of_int n
      in if f < 1 / 2 then n else if 1 / 2 < f then n + 1 else if even n then n else n + 1)"

definition fl64 :: "rat \<Rightarrow> rat" where
  "fl64 x =
     (if x = 0 then 0
      else let e = max (floor_log2 \<bar>x\<bar>) (- 1022); u = pow2 (e - 52)
           in of_int (round_half_even (x / u)) * u)"

text \<open>
  \<open>a / b\<close> on two ints is the correctly rounded quotient; a quotient too large for a
  float raises \<open>OverflowError\<close>. \<open>x * y\<close> on floats is the correctly rounded product (the
  products formed in this program are at most 100, far from the overflow to infinity).
\<close>

definition py_truediv :: "int \<Rightarrow> int \<Rightarrow> exc + rat" where
  "py_truediv a b =
     (if b = 0 then Inl (PyError ZeroDivisionError ''division by zero'')
      else if 2 ^ 1024 \<le> \<bar>fl64 (of_int a / of_int b)\<bar>
      then Inl (PyError OverflowError ''integer division result too large for a float'')
      else Inr (fl64 (of_int a / of_int b)))"

definition float_mul :: "rat \<Rightarrow> rat \<Rightarrow> rat" where
  "float_mul x y = fl64 (x * y)"

subsection \<open>\<open>PandaScoreAPI._calculate_win_rate\<close>\<close>

text \<open>\<open>sum(1 for match in matches if match.get("winner_id") == team_id)\<close>, from the left.\<close>

fun sum_wins :: "int \<Rightarrow> json list \<Rightarrow> json \<Rightarrow> exc + int" where
  "sum_wins acc [] team_id = Inr acc"
| "sum_wins acc (match # rest) team_id =
     (case py_get match ''winner_id'' JNull of
        Inl e \<Rightarrow> Inl e
      | Inr w \<Rightarrow> sum_wins (if py_eq w team_id then acc + 1 else acc) rest team_id)"

definition calculate_win_rate :: "json \<Rightarrow> json \<Rightarrow> exc + rat" where
  "calculate_win_rate matches team_id =
     (if \<not> py_truthy matches then Inr 0
      else
        bindE (py_iter matches) (\<lambda>ms.
        bindE (sum_wins 0 ms team_id) (\<lambda>wins.
        bindE (py_len matches) (\<lambda>n.
        bindE (py_truediv wins (int n)) (\<lambda>q.
        Inr (float_mul q 100))))))"

subsection \<open>\<open>PandaScoreAPI.get_teams\<close>\<close>

definition roster_entry :: "json \<Rightarrow> exc + json" where
  "roster_entry player =
     bindE (py_get player ''name'' JNull) (\<lambda>n.
     bindE (py_get player ''role'' JNull) (\<lambda>r.
     bindE (py_get player ''hometown'' JNull) (\<lambda>h.
     bindE (py_get player ''image_url'' JNull) (\<lambda>u.
     Inr (JDict [(''name'', n), (''role'', r), (''hometown'', h), (''image_url'', u)])))))"

definition roster :: "json \<Rightarrow> exc + json" where
  "roster team =
     bindE (py_getitem team ''players'') (\<lambda>players.
     bindE (py_iter players) (\<lambda>ps.
     bindE (mapE roster_entry ps) (\<lambda>rs. Inr (JList rs))))"

definition recent_performance ::
  "requests_get \<Rightarrow> (json \<Rightarrow> string) \<Rightarrow> json \<Rightarrow> json \<Rightarrow> exc + json" where
  "recent_performance rget repr team e1 =
     bindE (py_getitem team ''id'') (\<lambda>tid.
     bindE (rget (BASE_URL @ ''/teams/'' @ py_str repr tid @ ''/matches'')
              [(''per_page'', JInt 5)]) (\<lambda>matches_response.
     if response_ok matches_response then
       bindE (response_json matches_response) (\<lambda>recent_matches.
       bindE (py_getitem team ''id'') (\<lambda>tid'.
       bindE (calculate_win_rate recent_matches tid') (\<lambda>win_rate.
       py_setitem e1 ''recent_performance''
         (JDict [(''matches'', recent_matches), (''win_rate'', JFloat win_rate)]))))
     else Inr e1))"

definition enhance_team ::
  "requests_get \<Rightarrow> (json \<Rightarrow> string) \<Rightarrow> string option \<Rightarrow> json \<Rightarrow> exc + json" where
  "enhance_team rget repr game team =
     bindE (py_copy team) (\<lambda>e0.
     bindE (py_contains ''players'' team) (\<lambda>has_players.
     bindE (if has_players then bindE (roster team) (py_setitem e0 ''roster'') else Inr e0) (\<lambda>e1.
     if game = Some ''lol'' then recent_performance rget repr team e1 else Inr e1)))"

definition teams_params :: "string option \<Rightarrow> int \<Rightarrow> exc + (string \<times> json) list" where
  "teams_params game per_page =
     (let params = [(''per_page'', JInt per_page)]
      in if str_truthy game
         then (case map_of SUPPORTED_GAMES (the game) of
                 None \<Rightarrow> Inl (PyError KeyError (quoted (the game)))
               | Some slug \<Rightarrow> Inr (params @ [(''videogame'', JStr slug)]))
         else Inr params)"

definition PandaScoreAPI_get_teams ::
  "requests_get \<Rightarrow> (json \<Rightarrow> string) \<Rightarrow> string option \<Rightarrow> int \<Rightarrow> exc + json list" where
  "PandaScoreAPI_get_teams rget repr game per_page =
     (if str_truthy game \<and> the game \<notin> set (map fst SUPPORTED_GAMES)
      then Inl (PyError ValueError unsupported_game)
      else
        bindE (teams_params game per_page) (\<lambda>params.
        bindE (rget (BASE_URL @ ''/teams'') params) (\<lambda>response.
        bindE (raise_for_status response) (\<lambda>u.
        bindE (response_json response) (\<lambda>teams.
        bindE (py_iter teams) (\<lambda>ts.
        mapE (enhance_team rget repr game) ts))))))"


section \<open>The relational store and the session\<close>

text \<open>
  The rows of \<open>models.py\<close>. The primary key \<open>id\<close> of an object is \<open>None\<close> until its row is
  inserted. A column holds whatever object the handler assigned to the attribute; the
  datetime type \<open>'d\<close> is a parameter.
\<close>

record 'd Tournament =
  t_id :: "nat option"
  t_external_id :: string
  t_name :: json
  t_game :: json
  t_start_date :: "'d option"
  t_end_date :: "'d option"
  t_status :: json
  t_prize_pool :: json

record Team =
  team_row_id :: "nat option"
  team_external_id :: string
  team_name :: json
  team_acronym :: json
  team_image_url :: json
  team_game :: json
  team_rating :: "rat option"

record 'd database =
  tournaments :: "'d Tournament list"
  teams :: "Team list"

text \<open>
  A SQLAlchemy session on that database: \<open>stored\<close> is the committed content, \<open>txn\<close> the
  content as the open transaction sees it (flushed inserts and the attribute changes of
  loaded rows), \<open>new_tournaments\<close> and \<open>new_teams\<close> the pending objects (\<open>add\<close>ed, or
  created by \<open>merge\<close>, and not yet flushed). \<open>autoflush\<close> is the session factory's setting
  (the factory is in \<open>database.py\<close>, outside this text, so both settings are covered).
  \<open>faults\<close> says, for each coming operation of the session that talks to the database
  (a flush, a query, a commit) in turn, whether it fails and with which text (a lost
  connection, a value the driver cannot bind, ...); an exhausted list means no failure.
\<close>

record 'd Session =
  stored :: "'d database"
  txn :: "'d database"
  new_tournaments :: "'d Tournament list"
  new_teams :: "Team list"
  autoflush :: bool
  faults :: "string option list"


text \<open>
  Modelled from the spec: \<open>database.get_db\<close>, which is not among the sources; the spec
  says that the store is accessed through short-lived sessions scoped to a single request.
  A request starts on a session with nothing pending, and what the database holds after
  the request is \<open>stored\<close> of the session the handler leaves.
\<close>

definition get_db :: "bool \<Rightarrow> string option list \<Rightarrow> 'd database \<Rightarrow> 'd Session" where
  "get_db af fs store =
     \<lparr>stored = store, txn = store, new_tournaments = [], new_teams = [],
      autoflush = af, faults = fs\<rparr>"

text \<open>The next operation on the database fails with the given text, or goes through.\<close>

definition take_fault :: "'d Session \<Rightarrow> string option \<times> 'd Session" where
  "take_fault s =
     (case faults s of [] \<Rightarrow> (None, s) | f # fs \<Rightarrow> (f, s\<lparr>faults := fs\<rparr>))"

definition fresh_id :: "nat option list \<Rightarrow> nat" where
  "fresh_id ids = Suc (fold max (map (\<lambda>i. case i of None \<Rightarrow> 0 | Some n \<Rightarrow> n) ids) 0)"

definition unique_failed :: "string \<Rightarrow> exc" where
  "unique_failed column = PyError IntegrityError (''UNIQUE constraint failed: '' @ column)"

text \<open>
  The INSERTs of a flush, in the order the objects were added. \<open>external_id\<close> is declared
  \<open>unique=True\<close> in both tables, and \<open>id\<close> is the primary key: the database refuses a row
  whose value is taken. A row without \<open>id\<close> gets the next one, and a team without
  \<open>rating\<close> the column's default.
\<close>

fun insert_tournaments ::
  "'d Tournament list \<Rightarrow> 'd Tournament list \<Rightarrow> exc + 'd Tournament list" where
  "insert_tournaments rows [] = Inr rows"
| "insert_tournaments rows (p # ps) =
     (if t_external_id p \<in> set (map t_external_id rows)
      then Inl (unique_failed ''tournaments.external_id'')
      else if t_id p \<noteq> None \<and> t_id p \<in> set (map t_id rows)
      then Inl (unique_failed ''tournaments.id'')
      else insert_tournaments
             (rows @ [if t_id p = None then p\<lparr>t_id := Some (fresh_id (map t_id rows))\<rparr>
                      else p]) ps)"

fun insert_teams :: "Team list \<Rightarrow> Team list \<Rightarrow> exc + Team list" where
  "insert_teams rows [] = Inr rows"
| "insert_teams rows (p # ps) =
     (if team_external_id p \<in> set (map team_external_id rows)
      then Inl (unique_failed ''teams.external_id'')
      else if team_row_id p \<noteq> None \<and> team_row_id p \<in> set (map team_row_id rows)
      then Inl (unique_failed ''teams.id'')
      else insert_teams
             (rows @ [p\<lparr>team_row_id :=
                          Some (case team_row_id p of
                                  None \<Rightarrow> fresh_id (map team_row_id rows) | Some i \<Rightarrow> i),
                        team_rating := Some (case team_rating p of None \<Rightarrow> 1500 | Some r \<Rightarrow> r)\<rparr>]) ps)"

definition flush :: "'d Session \<Rightarrow> (exc + unit) \<times> 'd Session" where
  "flush s =
     (case take_fault s of
        (Some msg, s1) \<Rightarrow> (Inl (PyError OperationalError msg), s1)
      | (None, s1) \<Rightarrow>
          (case insert_tournaments (tournaments (txn s1)) (new_tournaments s1) of
             Inl e \<Rightarrow> (Inl e, s1)
           | Inr ts \<Rightarrow>
               (case insert_teams (teams (txn s1)) (new_teams s1) of
                  Inl e \<Rightarrow> (Inl e, s1)
                | Inr tms \<Rightarrow>
                    (Inr (), s1\<lparr>txn := \<lparr>tournaments = ts, teams = tms\<rparr>,
                                 new_tournaments := [], new_teams := []\<rparr>))))"

definition do_autoflush :: "'d Session \<Rightarrow> (exc + unit) \<times> 'd Session" where
  "do_autoflush s = (if autoflush s then flush s else (Inr (), s))"

text \<open>\<open>db.commit()\<close>: flush, then make the transaction's content the stored one.\<close>

definition commit :: "'d Session \<Rightarrow> (exc + unit) \<times> 'd Session" where
  "commit s =
     (case flush s of
        (Inl e, s1) \<Rightarrow> (Inl e, s1)
      | (Inr u, s1) \<Rightarrow>
          (case take_fault s1 of
             (Some msg, s2) \<Rightarrow> (Inl (PyError OperationalError msg), s2)
           | (None, s2) \<Rightarrow> (Inr (), s2\<lparr>stored := txn s2\<rparr>)))"

text \<open>\<open>db.rollback()\<close>: the transaction's changes and the pending objects are dropped.\<close>

definition rollback :: "'d Session \<Rightarrow> 'd Session" where
  "rollback s = s\<lparr>txn := stored s, new_tournaments := [], new_teams := []\<rparr>"

text \<open>
  \<open>db.query(Tournament).filter(Tournament.external_id == ext).first()\<close>: the session
  flushes first when \<open>autoflush\<close> is set, then the database answers from the rows of the
  transaction. The result is the position of the loaded row, \<open>None\<close> when no row matches.
\<close>

fun find_index :: "('a \<Rightarrow> bool) \<Rightarrow> 'a list \<Rightarrow> nat option" where
  "find_index P [] = None"
| "find_index P (x # xs) =
     (if P x then Some 0 else map_option Suc (find_index P xs))"

definition query_tournament_first ::
  "string \<Rightarrow> 'd Session \<Rightarrow> (exc + nat option) \<times> 'd Session" where
  "query_tournament_first ext s =
     (case do_autoflush s of
        (Inl e, s1) \<Rightarrow> (Inl e, s1)
      | (Inr u, s1) \<Rightarrow>
          (case take_fault s1 of
             (Some msg, s2) \<Rightarrow> (Inl (PyError OperationalError msg), s2)
           | (None, s2) \<Rightarrow>
               (Inr (find_index (\<lambda>r. t_external_id r = ext) (tournaments (txn s2))), s2)))"

text \<open>
  \<open>db.merge(team)\<close>: SQLAlchemy reconciles the given object with the row of the same
  primary key. It flushes first when \<open>autoflush\<close> is set. An object whose primary key is
  \<open>None\<close> has no row to be reconciled with: a copy of it becomes a pending new object.
  With a primary key, the row of that key (when there is one) takes the attributes the
  given object has, and otherwise the copy is pending under that key.
\<close>

definition merge_team :: "Team \<Rightarrow> 'd Session \<Rightarrow> (exc + unit) \<times> 'd Session" where
  "merge_team team s =
     (case do_autoflush s of
        (Inl e, s1) \<Rightarrow> (Inl e, s1)
      | (Inr u, s1) \<Rightarrow>
          (case team_row_id team of
             None \<Rightarrow> (Inr (), s1\<lparr>new_teams := new_teams s1 @ [team]\<rparr>)
           | Some i \<Rightarrow>
               (case take_fault s1 of
                  (Some msg, s2) \<Rightarrow> (Inl (PyError OperationalError msg), s2)
                | (None, s2) \<Rightarrow>
                    (case find_index (\<lambda>r. team_row_id r = Some i) (teams (txn s2)) of
                       None \<Rightarrow> (Inr (), s2\<lparr>new_teams := new_teams s2 @ [team]\<rparr>)
                     | Some j \<Rightarrow>
                         (Inr (), s2\<lparr>txn := (txn s2)\<lparr>teams := (teams (txn s2))
                            [j := team\<lparr>team_rating := (case team_rating team of
                                           None \<Rightarrow> team_rating (teams (txn s2) ! j)
                                         | Some r \<Rightarrow> Some r)\<rparr>]\<rparr>\<rparr>)))))"


section \<open>The list handlers of \<open>main.py\<close>\<close>

subsection \<open>\<open>GET /tournaments\<close>\<close>

text \<open>
  Lines 90 to 102. \<open>datetime.fromisoformat\<close> is a parameter: it returns a datetime or the
  text of its \<open>ValueError\<close>. The dict has no \<open>id\<close>, so the object built from it has none.
\<close>

definition replace_Z :: "string \<Rightarrow> string" where
  "replace_Z s = concat (map (\<lambda>c. if c = CHR ''Z'' then ''+00:00'' else [c]) s)"

definition parse_date :: "(string \<Rightarrow> string + 'd) \<Rightarrow> json \<Rightarrow> exc + 'd option" where
  "parse_date fromisoformat v =
     (if py_truthy v then
        (case v of
           JStr s \<Rightarrow> (case fromisoformat (replace_Z s) of
                       Inl msg \<Rightarrow> Inl (PyError ValueError msg)
                     | Inr d \<Rightarrow> Inr (Some d))
         | _ \<Rightarrow> Inl (no_attribute v ''replace''))
      else Inr None)"

definition tournament_dict ::
  "(string \<Rightarrow> string + 'd) \<Rightarrow> (json \<Rightarrow> string) \<Rightarrow> json \<Rightarrow> exc + 'd Tournament" where
  "tournament_dict fromisoformat repr t_data =
     bindE (py_get t_data ''begin_at'' JNull) (\<lambda>begin_at.
     bindE (py_get t_data ''end_at'' JNull) (\<lambda>end_at.
     bindE (py_getitem t_data ''id'') (\<lambda>tid.
     bindE (py_get t_data ''name'' (JStr ''Unnamed Tournament'')) (\<lambda>n.
     bindE (py_get t_data ''videogame'' (JDict [])) (\<lambda>videogame.
     bindE (py_get videogame ''name'' (JStr ''Unknown Game'')) (\<lambda>g.
     bindE (parse_date fromisoformat begin_at) (\<lambda>sd.
     bindE (parse_date fromisoformat end_at) (\<lambda>ed.
     bindE (py_get t_data ''status'' (JStr ''unknown'')) (\<lambda>st.
     bindE (py_get t_data ''prize_pool'' (JStr [])) (\<lambda>pp.
     Inr \<lparr>t_id = None, t_external_id = py_str repr tid, t_name = n, t_game = g,
          t_start_date = sd, t_end_date = ed, t_status = st, t_prize_pool = pp\<rparr>))))))))))"

text \<open>
  Lines 104 to 117: the loaded row takes every value of the dict and keeps its \<open>id\<close>;
  without a loaded row a new object is added to the session.
\<close>

definition upsert_tournament ::
  "'d Tournament \<Rightarrow> 'd Session \<Rightarrow> (exc + unit) \<times> 'd Session" where
  "upsert_tournament td s =
     (case query_tournament_first (t_external_id td) s of
        (Inl e, s1) \<Rightarrow> (Inl e, s1)
      | (Inr (Some i), s1) \<Rightarrow>
          (Inr (), s1\<lparr>txn := (txn s1)\<lparr>tournaments := (tournaments (txn s1))
                         [i := td\<lparr>t_id := t_id (tournaments (txn s1) ! i)\<rparr>]\<rparr>\<rparr>)
      | (Inr None, s1) \<Rightarrow> (Inr (), s1\<lparr>new_tournaments := new_tournaments s1 @ [td]\<rparr>))"

fun process_tournaments ::
  "(string \<Rightarrow> string + 'd) \<Rightarrow> (json \<Rightarrow> string) \<Rightarrow> json list \<Rightarrow> 'd Session
     \<Rightarrow> (exc + unit) \<times> 'd Session" where
  "process_tournaments fromisoformat repr [] s = (Inr (), s)"
| "process_tournaments fromisoformat repr (t_data # rest) s =
     (case tournament_dict fromisoformat repr t_data of
        Inl e \<Rightarrow> (Inl e, s)
      | Inr td \<Rightarrow>
          (case upsert_tournament td s of
             (Inl e, s1) \<Rightarrow> (Inl e, s1)
           | (Inr u, s1) \<Rightarrow> process_tournaments fromisoformat repr rest s1))"

text \<open>Lines 121 to 132: the commit, with its own handler.\<close>

definition commit_tournaments :: "json list \<Rightarrow> 'd Session \<Rightarrow> (exc + json) \<times> 'd Session" where
  "commit_tournaments tournaments_data s =
     (case commit s of
        (Inl e, s1) \<Rightarrow>
          (Inl (HTTPException 500 ''Failed to save tournaments to database''), rollback s1)
      | (Inr u, s1) \<Rightarrow> (Inr (JDict [(''tournaments'', JList tournaments_data)]), s1))"

definition get_tournaments_body ::
  "requests_get \<Rightarrow> (string \<Rightarrow> string + 'd) \<Rightarrow> (json \<Rightarrow> string) \<Rightarrow> string option \<Rightarrow> string
     \<Rightarrow> 'd Session \<Rightarrow> (exc + json) \<times> 'd Session" where
  "get_tournaments_body rget fromisoformat repr game status db =
     (if str_truthy game \<and> the game \<notin> set (map fst SUPPORTED_GAMES)
      then (Inl (HTTPException 400
                   (''Unsupported game. Supported games are: ''
                    @ join '', '' (map fst SUPPORTED_GAMES))), db)
      else
        (case PandaScoreAPI_get_tournaments rget game status 50 of
           Inl e \<Rightarrow> (Inl e, db)
         | Inr tournaments_data \<Rightarrow>
             (case process_tournaments fromisoformat repr tournaments_data db of
                (Inl e, db1) \<Rightarrow> (Inl e, db1)
              | (Inr u, db1) \<Rightarrow> commit_tournaments tournaments_data db1)))"

text \<open>
  Lines 134 to 142: an \<open>HTTPException\<close> passes; any other exception rolls the session
  back and becomes a 500.
\<close>

definition get_tournaments ::
  "requests_get \<Rightarrow> (string \<Rightarrow> string + 'd) \<Rightarrow> (json \<Rightarrow> string) \<Rightarrow> string option \<Rightarrow> string
     \<Rightarrow> 'd Session \<Rightarrow> (exc + json) \<times> 'd Session" where
  "get_tournaments rget fromisoformat repr game status db =
     (case get_tournaments_body rget fromisoformat repr game status db of
        (Inl (PyError c msg), db1) \<Rightarrow>
          (Inl (HTTPException 500 (''Failed to fetch tournaments: '' @ msg)), rollback db1)
      | (Inl (HTTPException c d), db1) \<Rightarrow> (Inl (HTTPException c d), db1)
      | (Inr v, db1) \<Rightarrow> (Inr v, db1))"

subsection \<open>\<open>GET /teams\<close>\<close>

text \<open>Lines 156 to 162: the object has neither \<open>id\<close> nor \<open>rating\<close>.\<close>

definition make_team :: "(json \<Rightarrow> string) \<Rightarrow> json \<Rightarrow> exc + Team" where
  "make_team repr t_data =
     bindE (py_getitem t_data ''id'') (\<lambda>tid.
     bindE (py_get t_data ''name'' (JStr ''Unnamed Team'')) (\<lambda>n.
     bindE (py_get t_data ''acronym'' (JStr [])) (\<lambda>a.
     bindE (py_get t_data ''image_url'' (JStr [])) (\<lambda>u.
     bindE (py_get t_data ''current_videogame'' (JDict [])) (\<lambda>videogame.
     bindE (py_get videogame ''name'' (JStr ''Unknown Game'')) (\<lambda>g.
     Inr \<lparr>team_row_id = None, team_external_id = py_str repr tid, team_name = n,
          team_acronym = a, team_image_url = u, team_game = g, team_rating = None\<rparr>))))))"

fun process_teams ::
  "(json \<Rightarrow> string) \<Rightarrow> json list \<Rightarrow> 'd Session \<Rightarrow> (exc + unit) \<times> 'd Session" where
  "process_teams repr [] s = (Inr (), s)"
| "process_teams repr (t_data # rest) s =
     (case make_team repr t_data of
        Inl e \<Rightarrow> (Inl e, s)
      | Inr team \<Rightarrow>
          (case merge_team team s of
             (Inl e, s1) \<Rightarrow> (Inl e, s1)
           | (Inr u, s1) \<Rightarrow> process_teams repr rest s1))"

definition get_teams_body ::
  "requests_get \<Rightarrow> (json \<Rightarrow> string) \<Rightarrow> string option \<Rightarrow> 'd Session
     \<Rightarrow> (exc + json) \<times> 'd Session" where
  "get_teams_body rget repr game db =
     (case PandaScoreAPI_get_teams rget repr game 50 of
        Inl e \<Rightarrow> (Inl e, db)
      | Inr teams_data \<Rightarrow>
          (case process_teams repr teams_data db of
             (Inl e, db1) \<Rightarrow> (Inl e, db1)
           | (Inr u, db1) \<Rightarrow>
               (case commit db1 of
                  (Inl e, db2) \<Rightarrow> (Inl e, db2)
                | (Inr u, db2) \<Rightarrow> (Inr (JDict [(''teams'', JList teams_data)]), db2))))"

text \<open>
  Lines 169 to 174: every exception rolls the session back and becomes a 500 with the
  text of the exception (\<open>str\<close> of an \<open>HTTPException\<close> is its code and detail).
\<close>

fun exc_str :: "exc \<Rightarrow> string" where
  "exc_str (PyError c msg) = msg"
| "exc_str (HTTPException c d) = show_nat c @ '': '' @ d"

definition get_teams ::
  "requests_get \<Rightarrow> (json \<Rightarrow> string) \<Rightarrow> string option \<Rightarrow> 'd Session
     \<Rightarrow> (exc + json) \<times> 'd Session" where
  "get_teams rget repr game db =
     (case get_teams_body rget repr game db of
        (Inl e, db1) \<Rightarrow>
          (Inl (HTTPException 500 (''Failed to fetch teams: '' @ exc_str e)), rollback db1)
      | (Inr v, db1) \<Rightarrow> (Inr v, db1))"


section \<open>The prediction handlers of \<open>main.py\<close>\<close>

text \<open>
  \<open>except HTTPException: raise\<close> followed by \<open>except Exception as e: raise
  HTTPException(500, prefix + str(e))\<close>.
\<close>

definition reraise :: "string \<Rightarrow> exc + 'a \<Rightarrow> exc + 'a" where
  "reraise prefix r =
     (case r of
        Inl (PyError c msg) \<Rightarrow> Inl (HTTPException 500 (prefix @ msg))
      | Inl (HTTPException c d) \<Rightarrow> Inl (HTTPException c d)
      | Inr v \<Rightarrow> Inr v)"

definition not_found :: "string \<Rightarrow> exc" where
  "not_found match_id = HTTPException 404 (''Match with ID '' @ match_id @ '' not found'')"

subsection \<open>\<open>GET /predictions/{match_id}\<close>\<close>

text \<open>
  The handler passes \<open>match_id\<close> as the first argument of \<open>get_matches\<close>, which is its
  \<open>tournament_id\<close>, and uses the list it returns as \<open>match_data\<close>.
\<close>

definition opponent_name :: "json \<Rightarrow> nat \<Rightarrow> exc + json" where
  "opponent_name match_data i =
     bindE (py_getitem match_data ''opponents'') (\<lambda>opps.
     bindE (py_getitem_int opps i) (\<lambda>ob.
     bindE (py_getitem ob ''opponent'') (\<lambda>ob'.
     py_getitem ob' ''name'')))"

definition prediction_body :: "string \<Rightarrow> json \<Rightarrow> exc + json" where
  "prediction_body match_id match_data =
     (if \<not> py_truthy match_data then Inl (not_found match_id)
      else
        bindE (py_get match_data ''opponents'' (JList [])) (\<lambda>opps.
        bindE (py_len opps) (\<lambda>n.
        bindE (if n \<ge> 2 then
                 bindE (opponent_name match_data 0) (\<lambda>a.
                 bindE (opponent_name match_data 1) (\<lambda>b. Inr (JList [a, b])))
               else Inr (JList [])) (\<lambda>teams.
        Inr (JDict [(''match_id'', JStr match_id), (''teams'', teams),
                    (''prediction'', JStr ''pending''), (''confidence'', JFloat 0)])))))"

definition get_match_prediction ::
  "requests_get \<Rightarrow> string \<Rightarrow> 'd Session \<Rightarrow> (exc + json) \<times> 'd Session" where
  "get_match_prediction rget match_id db =
     (reraise ''Failed to get match prediction: ''
        (bindE (PandaScoreAPI_get_matches rget (Some match_id) ''running,upcoming'' 50)
           (\<lambda>match_data. prediction_body match_id (JList match_data))),
      db)"

subsection \<open>\<open>POST /predictions/{match_id}\<close>\<close>

definition create_prediction ::
  "requests_get \<Rightarrow> string \<Rightarrow> (string \<times> json) list \<Rightarrow> 'd Session \<Rightarrow> (exc + json) \<times> 'd Session" where
  "create_prediction rget match_id prediction db =
     (reraise ''Failed to create prediction: ''
        (bindE (PandaScoreAPI_get_match rget match_id) (\<lambda>match_data.
         if \<not> py_truthy match_data then Inl (not_found match_id)
         else
           bindE (py_get match_data ''status'' JNull) (\<lambda>st.
           if py_eq st (JStr ''finished'')
           then Inl (HTTPException 400 ''Cannot make predictions for finished matches'')
           else Inr (JDict [(''status'', JStr ''success''),
                            (''message'', JStr ''Prediction recorded''),
                            (''prediction'', JDict prediction)])))),
      db)"

section \<open>Inputs for the examples\<close>

text \<open>
  A provider that answers a GET on a listed URL with status 200 and the listed body, and
  any other GET with status 404.
\<close>

definition not_found_response :: "string \<Rightarrow> Response" where
  "not_found_response url =
     \<lparr>status_code = 404, error_text = ''404 Client Error: Not Found for url: '' @ url,
      body = Inr (JDict [(''error'', JStr ''Not Found'')])\<rparr>"

definition provider :: "(string \<times> json) list \<Rightarrow> requests_get" where
  "provider pages url params =
     (case map_of pages url of
        Some v \<Rightarrow> Inr \<lparr>status_code = 200, error_text = [], body = Inr v\<rparr>
      | None \<Rightarrow> Inr (not_found_response url))"

definition plain_repr :: "json \<Rightarrow> string" where
  "plain_repr v = ''<object>''"

definition keep_text :: "string \<Rightarrow> string + string" where
  "keep_text s = Inr s"

definition empty_database :: "string database" where
  "empty_database = \<lparr>tournaments = [], teams = []\<rparr>"

definition match_42 :: "string \<Rightarrow> json" where
  "match_42 st =
     JDict [(''id'', JInt 42), (''status'', JStr st),
            (''opponents'', JList [JDict [(''opponent'', JDict [(''name'', JStr ''T1'')])],
                                   JDict [(''opponent'', JDict [(''name'', JStr ''G2'')])]])]"



definition mixed_tournaments :: json where
  "mixed_tournaments = JList
     [JDict [(''id'', JInt 1), (''name'', JStr ''LCK Spring''),
             (''videogame'', JDict [(''name'', JStr ''LoL''), (''slug'', JStr ''league-of-legends'')]),
             (''league'', JDict [(''name'', JStr ''LCK'')])],
      JDict [(''id'', JInt 2), (''name'', JStr ''VCT''),
             (''videogame'', JDict [(''name'', JStr ''Valorant''), (''slug'', JStr ''valorant'')])]]"

definition two_teams :: json where
  "two_teams = JList
     [JDict [(''id'', JInt 7), (''name'', JStr ''T1''),
             (''players'', JList [JDict [(''name'', JStr ''Faker''), (''role'', JStr ''mid'')]])],
      JDict [(''id'', JInt 8), (''name'', JStr ''G2'')]]"

definition lol_pages :: "(string \<times> json) list" where
  "lol_pages =
     [(''https://api.pandascore.co/lol/tournaments'', mixed_tournaments),
      (''https://api.pandascore.co/teams'', two_teams),
      (''https://api.pandascore.co/teams/7/matches'',
         JList [JDict [(''winner_id'', JInt 7)], JDict [(''winner_id'', JInt 8)]])]"

definition enriched_lck :: json where
  "enriched_lck = JDict
       [(''id'', JInt 1), (''name'', JStr ''LCK Spring''),
        (''videogame'', JDict [(''name'', JStr ''LoL''), (''slug'', JStr ''league-of-legends'')]),
        (''league'', JDict [(''name'', JStr ''LCK'')]),
        (''league_info'',
         JDict [(''name'', JStr ''LCK''), (''image_url'', JNull), (''region'', JNull)]),
        (''game_details'',
         JDict [(''patch_version'', JNull), (''tournament_type'', JStr ''Unknown''),
                (''region'', JStr ''International'')])]"


definition first_fetch :: "(string \<times> json) list" where
  "first_fetch =
     [(''https://api.pandascore.co/tournaments'',
       JList [JDict [(''id'', JInt 1), (''name'', JStr ''LCK Spring''),
                     (''videogame'', JDict [(''name'', JStr ''LoL'')]),
                     (''begin_at'', JStr ''2025-01-15T08:00:00Z''),
                     (''status'', JStr ''upcoming'')]]),
      (''https://api.pandascore.co/teams'',
       JList [JDict [(''id'', JInt 7), (''name'', JStr ''T1''), (''acronym'', JStr ''T1'')]])]"

definition second_fetch :: "(string \<times> json) list" where
  "second_fetch =
     [(''https://api.pandascore.co/tournaments'',
       JList [JDict [(''id'', JInt 1), (''name'', JStr ''LCK Spring 2025''),
                     (''videogame'', JDict [(''name'', JStr ''LoL'')]),
                     (''begin_at'', JStr ''2025-01-15T08:00:00Z''),
                     (''status'', JStr ''running'')]]),
      (''https://api.pandascore.co/teams'',
       JList [JDict [(''id'', JInt 7), (''name'', JStr ''T1 Esports''), (''acronym'', JStr ''T1'')]])]"

definition lck_row :: "string Tournament" where
  "lck_row =
     \<lparr>t_id = Some 1, t_external_id = ''1'', t_name = JStr ''LCK Spring'', t_game = JStr ''LoL'',
      t_start_date = Some ''2025-01-15T08:00:00+00:00'', t_end_date = None,
      t_status = JStr ''upcoming'', t_prize_pool = JStr []\<rparr>"

definition lck_row_updated :: "string Tournament" where
  "lck_row_updated =
     \<lparr>t_id = Some 1, t_external_id = ''1'', t_name = JStr ''LCK Spring 2025'',
      t_game = JStr ''LoL'', t_start_date = Some ''2025-01-15T08:00:00+00:00'',
      t_end_date = None, t_status = JStr ''running'', t_prize_pool = JStr []\<rparr>"

definition t1_row :: Team where
  "t1_row =
     \<lparr>team_row_id = Some 1, team_external_id = ''7'', team_name = JStr ''T1'',
      team_acronym = JStr ''T1'', team_image_url = JStr [], team_game = JStr ''Unknown Game'',
      team_rating = Some 1500\<rparr>"

definition store_after_first :: "string database" where
  "store_after_first = \<lparr>tournaments = [lck_row], teams = [t1_row]\<rparr>"

text \<open>
  A fetch that holds the same new tournament twice, and a fetch that holds a known
  tournament with new values next to an unknown one.
\<close>

definition same_id_twice :: "(string \<times> json) list" where
  "same_id_twice =
     [(''https://api.pandascore.co/tournaments'',
       JList [JDict [(''id'', JInt 1), (''name'', JStr ''first'')],
              JDict [(''id'', JInt 1), (''name'', JStr ''second'')]])]"

definition third_records :: "json list" where
  "third_records =
     [JDict [(''id'', JInt 1), (''name'', JStr ''LCK Spring 2025''),
             (''videogame'', JDict [(''name'', JStr ''LoL'')]),
             (''begin_at'', JStr ''2025-01-15T08:00:00Z''),
             (''status'', JStr ''running'')],
      JDict [(''id'', JInt 2), (''name'', JStr ''VCT Masters''),
             (''videogame'', JDict [(''name'', JStr ''Valorant'')]),
             (''status'', JStr ''upcoming'')]]"

definition third_fetch :: "(string \<times> json) list" where
  "third_fetch = [(''https://api.pandascore.co/tournaments'', JList third_records)]"

definition vct_row :: "string Tournament" where
  "vct_row =
     \<lparr>t_id = Some 2, t_external_id = ''2'', t_name = JStr ''VCT Masters'',
      t_game = JStr ''Valorant'', t_start_date = None, t_end_date = None,
      t_status = JStr ''upcoming'', t_prize_pool = JStr []\<rparr>"

section \<open>Notions used in the statements\<close>

text \<open>
  The records of the provider's answer to a GET, before any enrichment (none when the
  call or the decoding fails).
\<close>

definition raw_records :: "requests_get \<Rightarrow> string \<Rightarrow> (string \<times> json) list \<Rightarrow> json list" where
  "raw_records rget url params =
     (case bindE (rget url params) (\<lambda>response. bindE (response_json response) py_iter) of
        Inl e \<Rightarrow> [] | Inr rs \<Rightarrow> rs)"

text \<open>
  An enriched record \<open>e\<close> agrees with the raw dict \<open>d\<close> except on the keys in \<open>K\<close>: it is a
  dict, and every other key has the same value in both or is absent from both.
\<close>

definition agree_except :: "string set \<Rightarrow> (string \<times> json) list \<Rightarrow> json \<Rightarrow> bool" where
  "agree_except K d e = (\<exists>d'. e = JDict d' \<and> (\<forall>k. k \<notin> K \<longrightarrow> map_of d' k = map_of d k))"

text \<open>
  Following the spec's glossary (``Upsert: insert-if-absent, else overwrite-in-place,
  keyed by external id''): the row with the external id of \<open>td\<close> takes the values of
  \<open>td\<close> and keeps its place and its \<open>id\<close>; without such a row, \<open>td\<close> is appended under
  the next \<open>id\<close>.
\<close>

definition spec_upsert :: "'d Tournament \<Rightarrow> 'd Tournament list \<Rightarrow> 'd Tournament list" where
  "spec_upsert td rows =
     (case find_index (\<lambda>r. t_external_id r = t_external_id td) rows of
        Some i \<Rightarrow> rows[i := td\<lparr>t_id := t_id (rows ! i)\<rparr>]
      | None \<Rightarrow> rows @ [td\<lparr>t_id := Some (fresh_id (map t_id rows))\<rparr>])"

text \<open>The rows of a table once the pending objects (all without \<open>id\<close>) are inserted.\<close>

fun assign_ids :: "'d Tournament list \<Rightarrow> 'd Tournament list \<Rightarrow> 'd Tournament list" where
  "assign_ids rows [] = rows"
| "assign_ids rows (p # ps) =
     assign_ids (rows @ [p\<lparr>t_id := Some (fresh_id (map t_id rows))\<rparr>]) ps"

text \<open>The pending tournaments can be inserted: their external ids are new and distinct.\<close>

definition insertable :: "'d Tournament list \<Rightarrow> 'd Tournament list \<Rightarrow> bool" where
  "insertable rows ps =
     (distinct (map t_external_id ps)
      \<and> set (map t_external_id ps) \<inter> set (map t_external_id rows) = {}
      \<and> list_all (\<lambda>p. t_id p = None) ps)"

text \<open>
  A match record counts as a win of the team: its \<open>winner_id\<close> (\<open>None\<close> when the key is
  missing) equals the team id.
\<close>

definition is_win :: "json \<Rightarrow> (string \<times> json) list \<Rightarrow> bool" where
  "is_win team_id m = py_eq (case map_of m ''winner_id'' of Some v \<Rightarrow> v | None \<Rightarrow> JNull) team_id"

text \<open>
  The tournaments table as a flush would leave it, and the two facts about the pending
  objects that the handlers maintain.
\<close>

definition view :: "'d Session \<Rightarrow> 'd Tournament list" where
  "view s = assign_ids (tournaments (txn s)) (new_tournaments s)"

definition pending_ok :: "'d Session \<Rightarrow> bool" where
  "pending_ok s = insertable (tournaments (txn s)) (new_tournaments s)"

definition no_ids :: "'d Session \<Rightarrow> bool" where
  "no_ids s = list_all (\<lambda>p. t_id p = None) (new_tournaments s)"

section \<open>Basic facts\<close>

lemma bindE_simps [simp]: "bindE (Inl e) f = Inl e" "bindE (Inr x) f = f x"
  by (simp_all add: bindE_def)

lemma bindE_eq_Inr: "bindE m f = Inr y \<longleftrightarrow> (\<exists>x. m = Inr x \<and> f x = Inr y)"
  by (cases m) simp_all

lemma bindE_InrE:
  assumes "bindE m f = Inr y"
  obtains x where "m = Inr x" and "f x = Inr y"
  using assms by (cases m) simp_all


lemma py_eq_JStr [simp]: "py_eq v (JStr s) \<longleftrightarrow> v = JStr s"
  by (cases v) auto

lemma py_eq_JStr_left [simp]: "py_eq (JStr s) v \<longleftrightarrow> v = JStr s"
  by (cases v) auto

lemma unsupported_game_text:
  "unsupported_game = ''Unsupported game. Supported games are: lol, valorant''"
  by (simp add: unsupported_game_def SUPPORTED_GAMES_def)


section \<open>The prediction handlers\<close>

text \<open>
  Claim C7. Prediction write: when the provider has the match (\<open>get_match\<close> returns a
  non-empty record), the call fails with status 400 if the record's status is
  \<open>"finished"\<close>, and otherwise succeeds with the submitted payload echoed under
  \<open>"prediction"\<close>; in both cases the session, and with it the store, is left as it was.
\<close>

theorem create_prediction_finished_or_recorded:
  assumes "PandaScoreAPI_get_match rget match_id = Inr (JDict m)" and "m \<noteq> []"
  shows "create_prediction rget match_id prediction db =
     (if map_of m ''status'' = Some (JStr ''finished'')
      then Inl (HTTPException 400 ''Cannot make predictions for finished matches'')
      else Inr (JDict [(''status'', JStr ''success''), (''message'', JStr ''Prediction recorded''),
                       (''prediction'', JDict prediction)]),
      db)"
  using assms by (auto simp: create_prediction_def reraise_def split: option.splits)

lemma get_match_42:
  "PandaScoreAPI_get_match (provider [(''https://api.pandascore.co/matches/42'', match_42 st)]) ''42''
     = Inr (match_42 st)"
  by (simp add: PandaScoreAPI_get_match_def provider_def BASE_URL_def raise_for_status_def
      response_json_def)

theorem create_prediction_finished_or_recorded_witness:
  "create_prediction (provider [(''https://api.pandascore.co/matches/42'', match_42 ''finished'')])
      ''42'' [(''winner'', JStr ''T1'')] (get_db True [] empty_database)
     = (Inl (HTTPException 400 ''Cannot make predictions for finished matches''),
        get_db True [] empty_database)
   \<and> create_prediction (provider [(''https://api.pandascore.co/matches/42'', match_42 ''running'')])
      ''42'' [(''winner'', JStr ''T1'')] (get_db True [] empty_database)
     = (Inr (JDict [(''status'', JStr ''success''), (''message'', JStr ''Prediction recorded''),
                    (''prediction'', JDict [(''winner'', JStr ''T1'')])]),
        get_db True [] empty_database)"
  using create_prediction_finished_or_recorded
          [OF get_match_42 [of "''finished''", unfolded match_42_def],
           of "[(''winner'', JStr ''T1'')]" "get_db True [] empty_database"]
        create_prediction_finished_or_recorded
          [OF get_match_42 [of "''running''", unfolded match_42_def],
           of "[(''winner'', JStr ''T1'')]" "get_db True [] empty_database"]
  by (simp add: match_42_def)

text \<open>
  The prediction read never returns its placeholder: the list that \<open>get_matches\<close> returns
  is either empty (status 404) or has no \<open>get\<close> method (status 500).
\<close>

lemma get_match_prediction_never_succeeds:
  "fst (get_match_prediction rget match_id db) \<noteq> Inr v"
  by (cases "PandaScoreAPI_get_matches rget (Some match_id) ''running,upcoming'' 50")
     (auto simp: get_match_prediction_def reraise_def prediction_body_def not_found_def
           no_attribute_def split: sum.splits exc.splits)

text \<open>
  Claim C8, at a failing input. Prediction read of match 42 when the provider's match list
  holds one running match with two opponents: the claim promises the placeholder with the
  two names; the handler answers with status 500.
\<close>

theorem get_match_prediction_found_match:
  "get_match_prediction
      (provider [(''https://api.pandascore.co/matches'', JList [match_42 ''running''])])
      ''42'' (get_db True [] empty_database)
   = (Inl (HTTPException 500 (''Failed to get match prediction: '' @ quoted ''list''
             @ '' object has no attribute '' @ quoted ''get'')),
      get_db True [] empty_database)"
  by (simp add: get_match_prediction_def PandaScoreAPI_get_matches_def provider_def BASE_URL_def
      raise_for_status_def response_json_def match_42_def enhance_match_def normalize_opponent_def
      opponent_field_def prediction_body_def reraise_def no_attribute_def)

text \<open>
  Claim C9, at a failing input. Prediction write for match 999, which the provider does
  not have (it answers the GET with status 404): the claim promises status 404; the
  \<open>HTTPError\<close> of \<open>raise_for_status\<close> reaches the generic handler and the answer is 500.
\<close>

theorem create_prediction_unknown_match:
  "create_prediction (provider []) ''999'' prediction db
   = (Inl (HTTPException 500
        (''Failed to create prediction: 404 Client Error: Not Found for url: ''
         @ ''https://api.pandascore.co/matches/999'')), db)"
  by (simp add: create_prediction_def PandaScoreAPI_get_match_def provider_def BASE_URL_def
      raise_for_status_def not_found_response_def reraise_def)


section \<open>Validation of the game argument\<close>

text \<open>The tournaments handler refuses an unsupported game with status 400.\<close>

lemma get_tournaments_unsupported_game:
  assumes "g \<noteq> []" and "g \<notin> set (map fst SUPPORTED_GAMES)"
  shows "get_tournaments rget fromisoformat repr (Some g) st db
   = (Inl (HTTPException 400 ''Unsupported game. Supported games are: lol, valorant''), db)"
  using assms
  by (simp add: get_tournaments_def get_tournaments_body_def) (simp add: SUPPORTED_GAMES_def)

text \<open>
  Claim C6, at a failing input. \<open>GET /teams?game=dota2\<close>: the claim promises a client error
  (4xx); the teams handler has no check of its own, the client's \<open>ValueError\<close> reaches the
  generic handler and the answer is 500.
\<close>

theorem get_teams_unsupported_game:
  "get_teams rget repr (Some ''dota2'') db
   = (Inl (HTTPException 500
        ''Failed to fetch teams: Unsupported game. Supported games are: lol, valorant''),
      rollback db)"
  by (simp add: get_teams_def get_teams_body_def PandaScoreAPI_get_teams_def SUPPORTED_GAMES_def
      unsupported_game_def)


section \<open>Enrichment\<close>

lemma agree_except_refl: "agree_except K d (JDict d)"
  by (simp add: agree_except_def)

lemma agree_except_mono: "agree_except K d e \<Longrightarrow> K \<subseteq> K' \<Longrightarrow> agree_except K' d e"
  by (auto simp: agree_except_def)

lemma agree_except_setitem:
  assumes "agree_except K d e" and "bindE m (py_setitem e k) = Inr e'"
  shows "agree_except (insert k K) d e'"
proof -
  from assms(1) obtain d' where e: "e = JDict d'" and a: "\<forall>k. k \<notin> K \<longrightarrow> map_of d' k = map_of d k"
    by (auto simp: agree_except_def)
  from assms(2) obtain v where "py_setitem e k v = Inr e'" by (auto simp: bindE_eq_Inr)
  with e have "e' = JDict (AList.update k v d')" by simp
  with a show ?thesis by (simp add: agree_except_def update_conv')
qed

lemma enhance_tournament_keys:
  assumes "enhance_tournament game (JDict raw) = Inr e"
  shows "agree_except {''league_info'', ''series_info'', ''game_details''} raw e"
proof -
  from assms obtain hl e1 hs e2 where
    e1: "(if hl then bindE (league_info (JDict raw)) (py_setitem (JDict raw) ''league_info'')
          else Inr (JDict raw)) = Inr e1"
    and e2: "(if hs then bindE (series_info (JDict raw)) (py_setitem e1 ''series_info'')
              else Inr e1) = Inr e2"
    and e3: "(if game = Some ''lol''
              then bindE (lol_details (JDict raw)) (py_setitem e2 ''game_details'')
              else if game = Some ''valorant''
              then bindE (valorant_details (JDict raw)) (py_setitem e2 ''game_details'')
              else Inr e2) = Inr e"
    unfolding enhance_tournament_def bindE_eq_Inr by auto
  have a1: "agree_except {''league_info''} raw e1"
  proof (cases hl)
    case True
    with e1 have "bindE (league_info (JDict raw)) (py_setitem (JDict raw) ''league_info'') = Inr e1"
      by simp
    from agree_except_setitem [OF agree_except_refl [of "{}" raw] this] show ?thesis .
  next
    case False
    with e1 show ?thesis by (auto simp: agree_except_refl)
  qed
  have a2: "agree_except {''league_info'', ''series_info''} raw e2"
  proof (cases hs)
    case True
    with e2 have "bindE (series_info (JDict raw)) (py_setitem e1 ''series_info'') = Inr e2"
      by simp
    from agree_except_setitem [OF a1 this] show ?thesis by (simp add: insert_commute)
  next
    case False
    with e2 a1 show ?thesis by (auto intro: agree_except_mono)
  qed
  consider "game = Some ''lol''" | "game = Some ''valorant''"
    | "game \<noteq> Some ''lol''" "game \<noteq> Some ''valorant''" by blast
  then show ?thesis
  proof cases
    case 1
    with e3 have "bindE (lol_details (JDict raw)) (py_setitem e2 ''game_details'') = Inr e"
      by simp
    from agree_except_setitem [OF a2 this] show ?thesis by (simp add: insert_commute)
  next
    case 2
    with e3 have "bindE (valorant_details (JDict raw)) (py_setitem e2 ''game_details'') = Inr e"
      by simp
    from agree_except_setitem [OF a2 this] show ?thesis by (simp add: insert_commute)
  next
    case 3
    with e3 a2 show ?thesis by (auto intro: agree_except_mono)
  qed
qed

lemma videogame_slug_dict:
  assumes "videogame_slug t = Inr s"
  shows "\<exists>raw. t = JDict raw"
  using assms by (cases t) (simp_all add: videogame_slug_def)

lemma videogame_slug_enhance:
  assumes "enhance_tournament game t = Inr e" and "videogame_slug t = Inr s"
  shows "videogame_slug e = Inr s"
proof -
  from videogame_slug_dict [OF assms(2)] obtain raw where t: "t = JDict raw" ..
  from enhance_tournament_keys [OF assms(1) [unfolded t]] obtain d where
    e: "e = JDict d"
    and a: "\<forall>k. k \<notin> {''league_info'', ''series_info'', ''game_details''}
              \<longrightarrow> map_of d k = map_of raw k"
    unfolding agree_except_def by blast
  from a have "map_of d ''videogame'' = map_of raw ''videogame''" by simp
  then have "videogame_slug e = videogame_slug t"
    unfolding e t videogame_slug_def by simp
  with assms(2) show ?thesis by simp
qed


lemma filter_tournament_slug:
  assumes "filter_tournament (Some g) t = Inr (Some e)" and "map_of SUPPORTED_GAMES g = Some slug"
  shows "videogame_slug e = Inr (JStr slug)"
proof -
  from assms(2) have g: "str_truthy (Some g)" "g \<in> set (map fst SUPPORTED_GAMES)"
    by (auto simp: SUPPORTED_GAMES_def split: if_splits)
  from assms(1) obtain s where s: "videogame_slug t = Inr s"
    and rest: "(if \<not> py_eq s (JStr slug) then Inr None
                else bindE (enhance_tournament (Some g) t) (\<lambda>e. Inr (Some e))) = Inr (Some e)"
    using g assms(2) by (auto simp: filter_tournament_def bindE_eq_Inr)
  from rest have "s = JStr slug" and "enhance_tournament (Some g) t = Inr e"
    by (auto simp: bindE_eq_Inr split: if_splits)
  with s show ?thesis by (simp add: videogame_slug_enhance)
qed

lemma filter_tournaments_sound:
  assumes "filter_tournaments game ts acc = Inr out" and "e \<in> set out"
  shows "e \<in> set acc \<or> (\<exists>t \<in> set ts. filter_tournament game t = Inr (Some e))"
  using assms
proof (induction ts arbitrary: acc)
  case Nil
  then show ?case by simp
next
  case (Cons t ts)
  show ?case
  proof (cases "filter_tournament game t")
    case (Inl x)
    with Cons.prems show ?thesis by simp
  next
    case (Inr r)
    show ?thesis
    proof (cases r)
      case None
      with Inr Cons.prems Cons.IH [of acc] show ?thesis by auto
    next
      case (Some e')
      with Inr Cons.prems Cons.IH [of "acc @ [e']"] show ?thesis by auto
    qed
  qed
qed

lemma get_tournaments_sound:
  assumes "PandaScoreAPI_get_tournaments rget game status per_page = Inr ts" and "e \<in> set ts"
  shows "\<exists>params raw. tournaments_params game status per_page = Inr params
           \<and> raw \<in> set (raw_records rget (tournaments_endpoint game) params)
           \<and> filter_tournament game raw = Inr (Some e)"
proof -
  from assms(1) have "bindE (tournaments_params game status per_page) (\<lambda>params.
        bindE (rget (tournaments_endpoint game) params) (\<lambda>response.
        bindE (raise_for_status response) (\<lambda>u.
        bindE (response_json response) (\<lambda>tournaments.
        bindE (py_iter tournaments) (\<lambda>ts.
        filter_tournaments game ts []))))) = Inr ts"
    by (simp add: PandaScoreAPI_get_tournaments_def split: if_splits)
  then obtain params where p: "tournaments_params game status per_page = Inr params"
    and b1: "bindE (rget (tournaments_endpoint game) params) (\<lambda>response.
        bindE (raise_for_status response) (\<lambda>u.
        bindE (response_json response) (\<lambda>tournaments.
        bindE (py_iter tournaments) (\<lambda>ts.
        filter_tournaments game ts [])))) = Inr ts"
    by (rule bindE_InrE)
  from b1 obtain response where r: "rget (tournaments_endpoint game) params = Inr response"
    and b2: "bindE (raise_for_status response) (\<lambda>u.
        bindE (response_json response) (\<lambda>tournaments.
        bindE (py_iter tournaments) (\<lambda>ts.
        filter_tournaments game ts []))) = Inr ts"
    by (rule bindE_InrE)
  from b2 obtain u where bu: "bindE (response_json response) (\<lambda>tournaments.
        bindE (py_iter tournaments) (\<lambda>ts.
        filter_tournaments game ts [])) = Inr ts"
    by (rule bindE_InrE)
  from bu obtain js where j: "response_json response = Inr js"
    and b3: "bindE (py_iter js) (\<lambda>ts. filter_tournaments game ts []) = Inr ts"
    by (rule bindE_InrE)
  from b3 obtain rs where i: "py_iter js = Inr rs"
    and f: "filter_tournaments game rs [] = Inr ts"
    by (rule bindE_InrE)
  from filter_tournaments_sound [OF f assms(2)] obtain raw where
    "raw \<in> set rs" "filter_tournament game raw = Inr (Some e)" by auto
  moreover have "raw_records rget (tournaments_endpoint game) params = rs"
    using r j i by (simp add: raw_records_def)
  ultimately show ?thesis using p by blast
qed





lemma lol_tournaments_eval:
  "PandaScoreAPI_get_tournaments (provider lol_pages) (Some ''lol'') ''running,upcoming'' 50 =
   Inr [enriched_lck]"
  by code_simp


text \<open>
  Claim C3. When the tournament fetch is given a game of the supported set and returns a
  list, every record of the list has a videogame whose slug is the slug of that game.
\<close>

theorem get_tournaments_post_filter:
  assumes "PandaScoreAPI_get_tournaments rget (Some g) status per_page = Inr ts"
    and "map_of SUPPORTED_GAMES g = Some slug" and "t \<in> set ts"
  shows "videogame_slug t = Inr (JStr slug)"
  using get_tournaments_sound [OF assms(1,3)] filter_tournament_slug [OF _ assms(2)] by blast

theorem get_tournaments_post_filter_witness:
  "PandaScoreAPI_get_tournaments (provider lol_pages) (Some ''lol'') ''running,upcoming'' 50 =
     Inr [enriched_lck]
   \<and> map_of SUPPORTED_GAMES ''lol'' = Some ''league-of-legends''
   \<and> enriched_lck \<in> set [enriched_lck]
   \<and> videogame_slug enriched_lck = Inr (JStr ''league-of-legends'')"
proof -
  have g: "map_of SUPPORTED_GAMES ''lol'' = Some ''league-of-legends''"
    by (simp add: SUPPORTED_GAMES_def)
  have m: "enriched_lck \<in> set [enriched_lck]" by simp
  from get_tournaments_post_filter [OF lol_tournaments_eval g m] lol_tournaments_eval g m
  show ?thesis by (intro conjI)
qed





section \<open>The session\<close>

lemma find_index_Some:
  assumes "find_index P xs = Some i"
  shows "i < length xs \<and> P (xs ! i) \<and> (\<forall>j < i. \<not> P (xs ! j))"
  using assms
proof (induction xs arbitrary: i)
  case Nil
  then show ?case by simp
next
  case (Cons x xs)
  show ?case
  proof (cases "P x")
    case True
    with Cons.prems show ?thesis by simp
  next
    case False
    with Cons.prems obtain k where k: "find_index P xs = Some k" and i: "i = Suc k"
      by auto
    from Cons.IH [OF k] have "k < length xs" "P (xs ! k)" "\<forall>j < k. \<not> P (xs ! j)" by auto
    with False i show ?thesis by (auto simp: nth_Cons split: nat.splits)
  qed
qed

lemma find_index_None:
  "find_index P xs = None \<longleftrightarrow> (\<forall>x \<in> set xs. \<not> P x)"
  by (induction xs) auto

lemma find_index_append:
  "find_index P xs = Some i \<Longrightarrow> find_index P (xs @ ys) = Some i"
  by (induction xs arbitrary: i) (auto split: if_splits)

lemma assign_ids_append:
  "assign_ids rows (ps @ qs) = assign_ids (assign_ids rows ps) qs"
  by (induction ps arbitrary: rows) simp_all

lemma assign_ids_snoc:
  "assign_ids rows (ps @ [p]) =
     assign_ids rows ps @ [p\<lparr>t_id := Some (fresh_id (map t_id (assign_ids rows ps)))\<rparr>]"
  by (simp add: assign_ids_append)

lemma assign_ids_prefix:
  "\<exists>qs. assign_ids rows ps = rows @ qs \<and> map t_external_id qs = map t_external_id ps
         \<and> length qs = length ps"
proof (induction ps arbitrary: rows)
  case Nil
  then show ?case by simp
next
  case (Cons p ps)
  from Cons.IH [of "rows @ [p\<lparr>t_id := Some (fresh_id (map t_id rows))\<rparr>]"]
  obtain qs where "assign_ids (rows @ [p\<lparr>t_id := Some (fresh_id (map t_id rows))\<rparr>]) ps
       = (rows @ [p\<lparr>t_id := Some (fresh_id (map t_id rows))\<rparr>]) @ qs"
    and "map t_external_id qs = map t_external_id ps" and "length qs = length ps" by blast
  then show ?case
    by (intro exI [of _ "p\<lparr>t_id := Some (fresh_id (map t_id rows))\<rparr> # qs"]) simp
qed

lemma assign_ids_cong_ids:
  assumes "map t_id rows = map t_id rows'"
  shows "\<exists>qs. assign_ids rows ps = rows @ qs \<and> assign_ids rows' ps = rows' @ qs"
  using assms
proof (induction ps arbitrary: rows rows')
  case Nil
  then show ?case by simp
next
  case (Cons p ps)
  let ?q = "p\<lparr>t_id := Some (fresh_id (map t_id rows))\<rparr>"
  from Cons.prems have eq: "map t_id (rows @ [?q]) = map t_id (rows' @ [?q])" by simp
  from Cons.IH [OF eq] obtain qs where
    "assign_ids (rows @ [?q]) ps = (rows @ [?q]) @ qs"
    "assign_ids (rows' @ [?q]) ps = (rows' @ [?q]) @ qs" by blast
  with Cons.prems show ?case
    by (intro exI [of _ "?q # qs"]) simp
qed

lemma insert_tournaments_Inr:
  assumes "insert_tournaments rows ps = Inr rows'" and "list_all (\<lambda>p. t_id p = None) ps"
  shows "rows' = assign_ids rows ps \<and> insertable rows ps"
  using assms
proof (induction ps arbitrary: rows)
  case Nil
  then show ?case by (simp add: insertable_def)
next
  case (Cons p ps)
  let ?q = "p\<lparr>t_id := Some (fresh_id (map t_id rows))\<rparr>"
  from Cons.prems(2) have none: "t_id p = None" and rest: "list_all (\<lambda>p. t_id p = None) ps"
    by simp_all
  from Cons.prems(1) none have new: "t_external_id p \<notin> set (map t_external_id rows)"
    and ins: "insert_tournaments (rows @ [?q]) ps = Inr rows'"
    by (auto split: if_splits)
  from Cons.IH [OF ins rest] have r: "rows' = assign_ids (rows @ [?q]) ps"
    and i: "insertable (rows @ [?q]) ps" by simp_all
  from i new none rest have "insertable rows (p # ps)"
    by (auto simp: insertable_def)
  with r show ?case by simp
qed

lemma insert_tournaments_insertable:
  assumes "insertable rows ps"
  shows "insert_tournaments rows ps = Inr (assign_ids rows ps)"
  using assms
proof (induction ps arbitrary: rows)
  case Nil
  then show ?case by simp
next
  case (Cons p ps)
  let ?q = "p\<lparr>t_id := Some (fresh_id (map t_id rows))\<rparr>"
  from Cons.prems have "insertable (rows @ [?q]) ps"
    by (auto simp: insertable_def)
  from Cons.IH [OF this] Cons.prems show ?case
    by (auto simp: insertable_def)
qed

lemma take_fault_eq:
  assumes "take_fault s = (f, s1)"
  shows "\<exists>fs. s1 = s\<lparr>faults := fs\<rparr>"
proof (cases "faults s")
  case Nil
  with assms have "s1 = s\<lparr>faults := faults s\<rparr>" by (simp add: take_fault_def)
  then show ?thesis ..
next
  case (Cons a fs)
  with assms have "s1 = s\<lparr>faults := fs\<rparr>" by (simp add: take_fault_def)
  then show ?thesis ..
qed

lemma flush_Inr:
  assumes "flush s = (Inr u, s1)"
  shows "\<exists>ts tms fs.
           insert_tournaments (tournaments (txn s)) (new_tournaments s) = Inr ts
         \<and> insert_teams (teams (txn s)) (new_teams s) = Inr tms
         \<and> s1 = s\<lparr>faults := fs, txn := \<lparr>tournaments = ts, teams = tms\<rparr>,
                   new_tournaments := [], new_teams := []\<rparr>"
proof -
  obtain f s0 where tf: "take_fault s = (f, s0)" by (cases "take_fault s")
  from take_fault_eq [OF tf] obtain fs where s0: "s0 = s\<lparr>faults := fs\<rparr>" ..
  from assms tf have f: "f = None" by (cases f) (simp_all add: flush_def)
  from assms tf f s0 show ?thesis
    by (auto simp: flush_def split: sum.splits)
qed

lemma flush_stored:
  assumes "flush s = (r, s1)"
  shows "stored s1 = stored s"
proof -
  obtain f s0 where tf: "take_fault s = (f, s0)" by (cases "take_fault s")
  from take_fault_eq [OF tf] obtain fs where s0: "s0 = s\<lparr>faults := fs\<rparr>" ..
  from assms tf s0 show ?thesis
    by (cases f) (auto simp: flush_def split: sum.splits)
qed

lemma do_autoflush_Inr:
  assumes "do_autoflush s = (Inr u, sa)" and "no_ids s"
  shows "view sa = view s \<and> (pending_ok sa \<longrightarrow> pending_ok s) \<and> no_ids sa
         \<and> stored sa = stored s \<and> autoflush sa = autoflush s
         \<and> (new_teams s = [] \<longrightarrow> new_teams sa = [] \<and> teams (txn sa) = teams (txn s))"
proof (cases "autoflush s")
  case False
  with assms show ?thesis by (simp add: do_autoflush_def)
next
  case True
  with assms(1) have "flush s = (Inr u, sa)" by (simp add: do_autoflush_def)
  from flush_Inr [OF this] obtain ts tms fs where
    it: "insert_tournaments (tournaments (txn s)) (new_tournaments s) = Inr ts"
    and im: "insert_teams (teams (txn s)) (new_teams s) = Inr tms"
    and sa: "sa = s\<lparr>faults := fs, txn := \<lparr>tournaments = ts, teams = tms\<rparr>,
                   new_tournaments := [], new_teams := []\<rparr>" by blast
  from insert_tournaments_Inr [OF it] assms(2)
  have ts: "ts = assign_ids (tournaments (txn s)) (new_tournaments s)"
    and ok: "insertable (tournaments (txn s)) (new_tournaments s)"
    by (simp_all add: no_ids_def)
  have "new_teams s = [] \<longrightarrow> tms = teams (txn s)" using im by auto
  with ts ok sa show ?thesis
    by (simp add: view_def pending_ok_def no_ids_def)
qed

lemma query_tournament_first_Inr:
  assumes "query_tournament_first ext s = (Inr res, s1)"
  shows "\<exists>sa fs. do_autoflush s = (Inr (), sa) \<and> s1 = sa\<lparr>faults := fs\<rparr>
           \<and> res = find_index (\<lambda>r. t_external_id r = ext) (tournaments (txn sa))"
proof -
  obtain r sa where da: "do_autoflush s = (r, sa)" by (cases "do_autoflush s")
  with assms obtain u where r: "r = Inr u"
    by (cases r) (simp_all add: query_tournament_first_def)
  obtain f s0 where tf: "take_fault sa = (f, s0)" by (cases "take_fault sa")
  from take_fault_eq [OF tf] obtain fs where s0: "s0 = sa\<lparr>faults := fs\<rparr>" ..
  from assms da r tf have f: "f = None"
    by (cases f) (simp_all add: query_tournament_first_def)
  from assms da r tf f s0 show ?thesis
    by (auto simp: query_tournament_first_def)
qed

lemma map_update_same:
  assumes "i < length xs" and "f y = f (xs ! i)"
  shows "map f (xs[i := y]) = map f xs"
  using assms by (simp add: map_update list_update_same_conv)

lemma do_autoflush_stored:
  assumes "do_autoflush s = (r, s1)"
  shows "stored s1 = stored s"
proof (cases "autoflush s")
  case True
  with assms have "flush s = (r, s1)" by (simp add: do_autoflush_def)
  then show ?thesis by (rule flush_stored)
next
  case False
  with assms have "s1 = s" by (simp add: do_autoflush_def)
  then show ?thesis by simp
qed

lemma query_tournament_first_stored:
  assumes "query_tournament_first ext s = (r, s1)"
  shows "stored s1 = stored s"
proof -
  obtain ra sa where da: "do_autoflush s = (ra, sa)" by (cases "do_autoflush s")
  note st = do_autoflush_stored [OF da]
  obtain f s0 where tf: "take_fault sa = (f, s0)" by (cases "take_fault sa")
  from take_fault_eq [OF tf] obtain fs where s0: "s0 = sa\<lparr>faults := fs\<rparr>" ..
  then have st0: "stored s0 = stored sa" by simp
  have "s1 = sa \<or> s1 = s0"
  proof (cases ra)
    case (Inl e)
    with assms da show ?thesis by (simp add: query_tournament_first_def)
  next
    case (Inr u)
    with assms da tf show ?thesis
      by (cases f) (simp_all add: query_tournament_first_def)
  qed
  with st st0 show ?thesis by auto
qed

lemma rollback_stored [simp]: "stored (rollback s) = stored s"
  by (simp add: rollback_def)

lemma get_db_simps [simp]:
  "stored (get_db af fs store) = store" "txn (get_db af fs store) = store"
  "new_tournaments (get_db af fs store) = []" "new_teams (get_db af fs store) = []"
  "autoflush (get_db af fs store) = af"
  by (simp_all add: get_db_def)

lemma commit_Inr:
  assumes "commit s = (Inr u, s1)"
  shows "\<exists>sf fs. flush s = (Inr (), sf) \<and> s1 = sf\<lparr>faults := fs, stored := txn sf\<rparr>"
proof -
  obtain r sf where fl: "flush s = (r, sf)" by (cases "flush s")
  with assms obtain u' where r: "r = Inr u'" by (cases r) (simp_all add: commit_def)
  obtain f s0 where tf: "take_fault sf = (f, s0)" by (cases "take_fault sf")
  from take_fault_eq [OF tf] obtain fs where s0: "s0 = sf\<lparr>faults := fs\<rparr>" ..
  from assms fl r tf have f: "f = None" by (cases f) (simp_all add: commit_def)
  from assms fl r tf f s0 show ?thesis by (auto simp: commit_def)
qed

lemma commit_Inl:
  assumes "commit s = (Inl e, s1)"
  shows "stored s1 = stored s"
proof -
  obtain r sf where fl: "flush s = (r, sf)" by (cases "flush s")
  note st = flush_stored [OF fl]
  obtain f s0 where tf: "take_fault sf = (f, s0)" by (cases "take_fault sf")
  from take_fault_eq [OF tf] obtain fs where s0: "s0 = sf\<lparr>faults := fs\<rparr>" ..
  from assms fl tf s0 st show ?thesis
    by (cases r; cases f) (auto simp: commit_def)
qed

lemma commit_view:
  assumes "commit s = (Inr u, s1)" and "no_ids s"
  shows "pending_ok s \<and> tournaments (stored s1) = view s
         \<and> (new_teams s = [] \<longrightarrow> teams (stored s1) = teams (txn s))"
proof -
  from commit_Inr [OF assms(1)] obtain sf fs where fl: "flush s = (Inr (), sf)"
    and s1: "s1 = sf\<lparr>faults := fs, stored := txn sf\<rparr>" by blast
  from flush_Inr [OF fl] obtain ts tms fs' where
    it: "insert_tournaments (tournaments (txn s)) (new_tournaments s) = Inr ts"
    and im: "insert_teams (teams (txn s)) (new_teams s) = Inr tms"
    and sf: "sf = s\<lparr>faults := fs', txn := \<lparr>tournaments = ts, teams = tms\<rparr>,
                   new_tournaments := [], new_teams := []\<rparr>" by blast
  from insert_tournaments_Inr [OF it] assms(2)
  have "ts = assign_ids (tournaments (txn s)) (new_tournaments s)"
    and "insertable (tournaments (txn s)) (new_tournaments s)"
    by (simp_all add: no_ids_def)
  moreover have "new_teams s = [] \<longrightarrow> tms = teams (txn s)" using im by auto
  ultimately show ?thesis using s1 sf by (simp add: view_def pending_ok_def)
qed

section \<open>Reconciliation of tournaments\<close>

lemma upsert_tournament_Inr:
  assumes up: "upsert_tournament td s = (Inr u, s1)"
    and none: "t_id td = None" and ni: "no_ids s"
  shows "no_ids s1 \<and> stored s1 = stored s \<and> autoflush s1 = autoflush s
         \<and> (new_teams s = [] \<longrightarrow> new_teams s1 = [] \<and> teams (txn s1) = teams (txn s))
         \<and> (pending_ok s1 \<longrightarrow> view s1 = spec_upsert td (view s) \<and> pending_ok s)"
proof -
  obtain r s0 where q: "query_tournament_first (t_external_id td) s = (r, s0)"
    by (cases "query_tournament_first (t_external_id td) s")
  with up obtain res where r: "r = Inr res"
    by (cases r) (simp_all add: upsert_tournament_def)
  from query_tournament_first_Inr [OF q [unfolded r]] obtain sa fs where
    da: "do_autoflush s = (Inr (), sa)" and s0: "s0 = sa\<lparr>faults := fs\<rparr>"
    and res: "res = find_index (\<lambda>r. t_external_id r = t_external_id td) (tournaments (txn sa))"
    by blast
  from do_autoflush_Inr [OF da ni] have
    v: "view sa = view s" and oka: "pending_ok sa \<longrightarrow> pending_ok s" and nia: "no_ids sa"
    and st: "stored sa = stored s" and af: "autoflush sa = autoflush s"
    and tm: "new_teams s = [] \<longrightarrow> new_teams sa = [] \<and> teams (txn sa) = teams (txn s)"
    by simp_all
  let ?R = "tournaments (txn sa)" and ?P = "new_tournaments sa"
  let ?X = "\<lambda>r. t_external_id r = t_external_id td"
  show ?thesis
  proof (cases res)
    case None
    with up q r s0 have s1: "s1 = sa\<lparr>faults := fs, new_tournaments := ?P @ [td]\<rparr>"
      by (simp add: upsert_tournament_def)
    have fwd: "no_ids s1 \<and> stored s1 = stored s \<and> autoflush s1 = autoflush s
         \<and> (new_teams s = [] \<longrightarrow> new_teams s1 = [] \<and> teams (txn s1) = teams (txn s))"
      using nia none s1 st af tm by (simp add: no_ids_def)
    have "view s1 = spec_upsert td (view s) \<and> pending_ok s" if ok1: "pending_ok s1"
    proof -
      from ok1 s1 have ins: "insertable ?R (?P @ [td])" by (simp add: pending_ok_def)
      then have insa: "insertable ?R ?P"
        and new: "t_external_id td \<notin> set (map t_external_id ?P)"
                 "t_external_id td \<notin> set (map t_external_id ?R)"
        by (auto simp: insertable_def)
      from assign_ids_prefix [of ?R ?P] obtain qs where
        a: "assign_ids ?R ?P = ?R @ qs" and e: "map t_external_id qs = map t_external_id ?P"
        by blast
      from new e have nin: "t_external_id td \<notin> set (map t_external_id (?R @ qs))" by simp
      have "\<not> ?X x" if "x \<in> set (?R @ qs)" for x
      proof
        assume "?X x"
        moreover from that have "t_external_id x \<in> set (map t_external_id (?R @ qs))"
          by (simp only: set_map) (rule imageI)
        ultimately show False using nin by simp
      qed
      then have "find_index ?X (assign_ids ?R ?P) = None"
        unfolding a find_index_None by blast
      then have "spec_upsert td (view sa) = view s1"
        by (simp add: spec_upsert_def view_def s1 assign_ids_snoc)
      with v insa oka show ?thesis by (simp add: pending_ok_def)
    qed
    with fwd show ?thesis by blast
  next
    case (Some i)
    from find_index_Some [OF Some [unfolded res]] have
      i: "i < length ?R" and x: "t_external_id (?R ! i) = t_external_id td" by simp_all
    let ?td = "td\<lparr>t_id := t_id (?R ! i)\<rparr>"
    from Some up q r s0 have
      s1: "s1 = sa\<lparr>faults := fs, txn := (txn sa)\<lparr>tournaments := ?R[i := ?td]\<rparr>\<rparr>"
      by (simp add: upsert_tournament_def)
    have fwd: "no_ids s1 \<and> stored s1 = stored s \<and> autoflush s1 = autoflush s
         \<and> (new_teams s = [] \<longrightarrow> new_teams s1 = [] \<and> teams (txn s1) = teams (txn s))"
      using nia s1 st af tm by (simp add: no_ids_def)
    have ids: "map t_id (?R[i := ?td]) = map t_id ?R"
      using i by (simp add: map_update_same)
    have exts: "map t_external_id (?R[i := ?td]) = map t_external_id ?R"
      using i x by (simp add: map_update_same)
    from assign_ids_cong_ids [OF ids, of ?P] obtain qs where
      a1: "assign_ids (?R[i := ?td]) ?P = ?R[i := ?td] @ qs"
      and a: "assign_ids ?R ?P = ?R @ qs" by blast
    from Some res have "find_index ?X (?R @ qs) = Some i"
      by (simp add: find_index_append)
    then have "spec_upsert td (?R @ qs) = ?R[i := ?td] @ qs"
      using i by (simp add: spec_upsert_def nth_append list_update_append1)
    then have sp: "spec_upsert td (view sa) = view s1"
      by (simp add: view_def s1 a a1)
    have "pending_ok sa" if "pending_ok s1"
      using that s1 exts by (simp add: pending_ok_def insertable_def)
    with sp v oka fwd show ?thesis by simp
  qed
qed

lemma tournament_dict_no_id:
  assumes "tournament_dict f r t = Inr td"
  shows "t_id td = None"
  using assms unfolding tournament_dict_def
  by (elim bindE_InrE) auto

lemma process_tournaments_Inr:
  assumes "process_tournaments f r data s = (Inr u, s')" and "no_ids s"
  shows "\<exists>tds. mapE (tournament_dict f r) data = Inr tds
           \<and> no_ids s' \<and> stored s' = stored s \<and> autoflush s' = autoflush s
           \<and> (new_teams s = [] \<longrightarrow> new_teams s' = [] \<and> teams (txn s') = teams (txn s))
           \<and> (pending_ok s' \<longrightarrow> view s' = fold spec_upsert tds (view s) \<and> pending_ok s)"
  using assms
proof (induction data arbitrary: s)
  case Nil
  then show ?case by simp
next
  case (Cons t data)
  from Cons.prems(1) obtain td where td: "tournament_dict f r t = Inr td"
    by (cases "tournament_dict f r t") simp_all
  obtain r1 s1 where up: "upsert_tournament td s = (r1, s1)"
    by (cases "upsert_tournament td s")
  with Cons.prems(1) td obtain u1 where r1: "r1 = Inr u1"
    by (cases r1) simp_all
  from Cons.prems(1) td up r1 have rest: "process_tournaments f r data s1 = (Inr u, s')"
    by simp
  from upsert_tournament_Inr [OF up [unfolded r1] tournament_dict_no_id [OF td] Cons.prems(2)]
  have ni1: "no_ids s1" and st1: "stored s1 = stored s" and af1: "autoflush s1 = autoflush s"
    and tm1: "new_teams s = [] \<longrightarrow> new_teams s1 = [] \<and> teams (txn s1) = teams (txn s)"
    and v1: "pending_ok s1 \<longrightarrow> view s1 = spec_upsert td (view s) \<and> pending_ok s"
    by simp_all
  from Cons.IH [OF rest ni1] obtain tds where
    m: "mapE (tournament_dict f r) data = Inr tds"
    and ni': "no_ids s'" and st': "stored s' = stored s1" and af': "autoflush s' = autoflush s1"
    and tm': "new_teams s1 = [] \<longrightarrow> new_teams s' = [] \<and> teams (txn s') = teams (txn s1)"
    and v': "pending_ok s' \<longrightarrow> view s' = fold spec_upsert tds (view s1) \<and> pending_ok s1"
    by blast
  have "mapE (tournament_dict f r) (t # data) = Inr (td # tds)" using td m by simp
  moreover have "pending_ok s' \<longrightarrow> view s' = fold spec_upsert (td # tds) (view s) \<and> pending_ok s"
    using v1 v' by simp
  ultimately show ?case using ni' st' st1 af' af1 tm' tm1 by auto
qed

lemma upsert_tournament_stored:
  assumes "upsert_tournament td s = (r, s1)"
  shows "stored s1 = stored s"
proof -
  obtain rq sq where q: "query_tournament_first (t_external_id td) s = (rq, sq)"
    by (cases "query_tournament_first (t_external_id td) s")
  note st = query_tournament_first_stored [OF q]
  have "stored s1 = stored sq"
  proof (cases rq)
    case (Inl e)
    with assms q have "s1 = sq" by (simp add: upsert_tournament_def)
    then show ?thesis by simp
  next
    case (Inr res)
    show ?thesis
    proof (cases res)
      case None
      with assms q Inr have "s1 = sq\<lparr>new_tournaments := new_tournaments sq @ [td]\<rparr>"
        by (simp add: upsert_tournament_def)
      then show ?thesis by simp
    next
      case (Some i)
      with assms q Inr have "s1 = sq\<lparr>txn := (txn sq)\<lparr>tournaments := (tournaments (txn sq))
                         [i := td\<lparr>t_id := t_id (tournaments (txn sq) ! i)\<rparr>]\<rparr>\<rparr>"
        by (simp add: upsert_tournament_def)
      then show ?thesis by simp
    qed
  qed
  with st show ?thesis by simp
qed

lemma process_tournaments_stored:
  assumes "process_tournaments f r data s = (res, s')"
  shows "stored s' = stored s"
  using assms
proof (induction data arbitrary: s)
  case Nil
  then show ?case by simp
next
  case (Cons t data)
  show ?case
  proof (cases "tournament_dict f r t")
    case (Inl e)
    with Cons.prems have "s' = s" by simp
    then show ?thesis by simp
  next
    case (Inr td)
    obtain r1 s1 where up: "upsert_tournament td s = (r1, s1)"
      by (cases "upsert_tournament td s")
    note st = upsert_tournament_stored [OF up]
    show ?thesis
    proof (cases r1)
      case (Inl e)
      with Cons.prems Inr up have "s' = s1" by simp
      with st show ?thesis by simp
    next
      case r1: (Inr u1)
      with Cons.prems Inr up have "process_tournaments f r data s1 = (res, s')" by simp
      from Cons.IH [OF this] st show ?thesis by simp
    qed
  qed
qed

lemma commit_tournaments_Inl:
  assumes "commit_tournaments data s = (Inl e, s1)"
  shows "e = HTTPException 500 ''Failed to save tournaments to database'' \<and> stored s1 = stored s"
proof -
  obtain r sc where c: "commit s = (r, sc)" by (cases "commit s")
  with assms obtain e' where r: "r = Inl e'" by (cases r) (simp_all add: commit_tournaments_def)
  from commit_Inl [OF c [unfolded r]] have "stored sc = stored s" .
  moreover from assms c r have "e = HTTPException 500 ''Failed to save tournaments to database''"
    and "s1 = rollback sc"
    by (simp_all add: commit_tournaments_def)
  ultimately show ?thesis by simp
qed

lemma commit_tournaments_Inr:
  assumes "commit_tournaments data s = (Inr v, s1)"
  shows "v = JDict [(''tournaments'', JList data)] \<and> commit s = (Inr (), s1)"
proof -
  obtain r sc where c: "commit s = (r, sc)" by (cases "commit s")
  with assms obtain u where r: "r = Inr u" by (cases r) (simp_all add: commit_tournaments_def)
  from assms c r show ?thesis by (simp add: commit_tournaments_def)
qed

lemma get_tournaments_body_refused:
  assumes "str_truthy game \<and> the game \<notin> set (map fst SUPPORTED_GAMES)"
  shows "get_tournaments_body rget f r game st db =
     (Inl (HTTPException 400
             (''Unsupported game. Supported games are: ''
              @ join '', '' (map fst SUPPORTED_GAMES))), db)"
  unfolding get_tournaments_body_def using assms by (rule if_P)

lemma get_tournaments_body_accepted:
  assumes "\<not> (str_truthy game \<and> the game \<notin> set (map fst SUPPORTED_GAMES))"
  shows "get_tournaments_body rget f r game st db =
     (case PandaScoreAPI_get_tournaments rget game st 50 of
           Inl e \<Rightarrow> (Inl e, db)
         | Inr tournaments_data \<Rightarrow>
             (case process_tournaments f r tournaments_data db of
                (Inl e, db1) \<Rightarrow> (Inl e, db1)
              | (Inr u, db1) \<Rightarrow> commit_tournaments tournaments_data db1))"
  unfolding get_tournaments_body_def using assms by (rule if_not_P)

lemma get_tournaments_body_Inl:
  assumes "get_tournaments_body rget f r game st db = (Inl e, db1)"
  shows "stored db1 = stored db"
proof (cases "str_truthy game \<and> the game \<notin> set (map fst SUPPORTED_GAMES)")
  case True
  from assms have "db1 = db" unfolding get_tournaments_body_refused [OF True] by simp
  then show ?thesis by simp
next
  case False
  note body = get_tournaments_body_accepted [OF False]
  show ?thesis
  proof (cases "PandaScoreAPI_get_tournaments rget game st 50")
    case (Inl e')
    with assms have "db1 = db" by (simp add: body)
    then show ?thesis by simp
  next
    case (Inr data)
    obtain rp sp where p: "process_tournaments f r data db = (rp, sp)"
      by (cases "process_tournaments f r data db")
    note st = process_tournaments_stored [OF p]
    show ?thesis
    proof (cases rp)
      case (Inl e')
      with assms \<open>PandaScoreAPI_get_tournaments rget game st 50 = Inr data\<close> p
      have "db1 = sp" by (simp add: body)
      with st show ?thesis by simp
    next
      case Inr': (Inr u)
      with assms Inr p
      have "commit_tournaments data sp = (Inl e, db1)"
        by (simp add: body)
      from commit_tournaments_Inl [OF this] st show ?thesis by simp
    qed
  qed
qed

lemma get_tournaments_body_Inr:
  assumes "get_tournaments_body rget f r game st db = (Inr v, db1)"
  shows "\<exists>data sp. PandaScoreAPI_get_tournaments rget game st 50 = Inr data
           \<and> process_tournaments f r data db = (Inr (), sp)
           \<and> commit sp = (Inr (), db1) \<and> v = JDict [(''tournaments'', JList data)]"
proof -
  have ok: "\<not> (str_truthy game \<and> the game \<notin> set (map fst SUPPORTED_GAMES))"
  proof
    assume bad: "str_truthy game \<and> the game \<notin> set (map fst SUPPORTED_GAMES)"
    from assms show False unfolding get_tournaments_body_refused [OF bad] by simp
  qed
  note body = get_tournaments_body_accepted [OF ok]
  from assms obtain data where d: "PandaScoreAPI_get_tournaments rget game st 50 = Inr data"
    by (cases "PandaScoreAPI_get_tournaments rget game st 50") (simp_all add: body)
  obtain rp sp where p: "process_tournaments f r data db = (rp, sp)"
    by (cases "process_tournaments f r data db")
  from assms d p obtain u where rp: "rp = Inr u"
    by (cases rp) (simp_all add: body)
  from assms d p rp have "commit_tournaments data sp = (Inr v, db1)"
    by (simp add: body)
  from commit_tournaments_Inr [OF this] d p rp show ?thesis by simp
qed

lemma get_tournaments_Inl:
  assumes "get_tournaments rget f r game st db = (Inl e, db')"
  shows "(\<exists>c d. e = HTTPException c d) \<and> stored db' = stored db"
proof -
  obtain rb sb where b: "get_tournaments_body rget f r game st db = (rb, sb)"
    by (cases "get_tournaments_body rget f r game st db")
  with assms obtain eb where rb: "rb = Inl eb"
    by (cases rb) (simp_all add: get_tournaments_def)
  from get_tournaments_body_Inl [OF b [unfolded rb]] have st: "stored sb = stored db" .
  show ?thesis
  proof (cases eb)
    case (HTTPException c d)
    with assms b rb have "e = HTTPException c d" and "db' = sb"
      by (simp_all add: get_tournaments_def)
    with st show ?thesis by simp
  next
    case (PyError c m)
    with assms b rb have "e = HTTPException 500 (''Failed to fetch tournaments: '' @ m)"
      and "db' = rollback sb"
      by (simp_all add: get_tournaments_def)
    with st show ?thesis by simp
  qed
qed

lemma get_tournaments_Inr:
  assumes "get_tournaments rget f r game st (get_db af fs store) = (Inr v, db')"
  shows "\<exists>data tds. PandaScoreAPI_get_tournaments rget game st 50 = Inr data
           \<and> v = JDict [(''tournaments'', JList data)]
           \<and> mapE (tournament_dict f r) data = Inr tds
           \<and> tournaments (stored db') = fold spec_upsert tds (tournaments store)
           \<and> teams (stored db') = teams store"
proof -
  let ?db = "get_db af fs store"
  obtain rb sb where b: "get_tournaments_body rget f r game st ?db = (rb, sb)"
    by (cases "get_tournaments_body rget f r game st ?db")
  have body: "get_tournaments_body rget f r game st ?db = (Inr v, db')"
  proof (cases rb)
    case (Inl eb)
    with assms b show ?thesis by (cases eb) (simp_all add: get_tournaments_def)
  next
    case (Inr v')
    with assms b show ?thesis by (simp add: get_tournaments_def)
  qed
  from get_tournaments_body_Inr [OF body] obtain data sp where
    d: "PandaScoreAPI_get_tournaments rget game st 50 = Inr data"
    and p: "process_tournaments f r data ?db = (Inr (), sp)"
    and c: "commit sp = (Inr (), db')" and v: "v = JDict [(''tournaments'', JList data)]"
    by blast
  have ni: "no_ids ?db" by (simp add: no_ids_def)
  from process_tournaments_Inr [OF p ni] obtain tds where
    m: "mapE (tournament_dict f r) data = Inr tds" and ni': "no_ids sp"
    and tm: "new_teams sp = [] \<and> teams (txn sp) = teams store"
    and vw: "pending_ok sp \<longrightarrow> view sp = fold spec_upsert tds (view ?db) \<and> pending_ok ?db"
    by auto
  from commit_view [OF c ni'] tm have "pending_ok sp"
    and "tournaments (stored db') = view sp" and "teams (stored db') = teams store" by simp_all
  with vw have "tournaments (stored db') = fold spec_upsert tds (tournaments store)"
    by (simp add: view_def)
  with d v m \<open>teams (stored db') = teams store\<close> show ?thesis by blast
qed

subsection \<open>The upsert of the spec\<close>

lemma spec_upsert_exts:
  "map t_external_id (spec_upsert td rows) =
     (if t_external_id td \<in> set (map t_external_id rows) then map t_external_id rows
      else map t_external_id rows @ [t_external_id td])"
proof (cases "find_index (\<lambda>r. t_external_id r = t_external_id td) rows")
  case None
  then have "\<forall>x \<in> set rows. t_external_id x \<noteq> t_external_id td"
    by (simp add: find_index_None)
  then have "t_external_id td \<notin> set (map t_external_id rows)" by auto
  with None show ?thesis by (simp add: spec_upsert_def)
next
  case (Some i)
  from find_index_Some [OF Some] have i: "i < length rows"
    and x: "t_external_id (rows ! i) = t_external_id td" by simp_all
  from i x have "t_external_id td \<in> set (map t_external_id rows)"
    by (metis length_map nth_map nth_mem)
  moreover from i x have "map t_external_id (rows[i := td\<lparr>t_id := t_id (rows ! i)\<rparr>])
      = map t_external_id rows" by (simp add: map_update_same)
  ultimately show ?thesis using Some by (simp add: spec_upsert_def)
qed

lemma spec_upsert_ids:
  "\<exists>zs. map t_id (spec_upsert td rows) = map t_id rows @ zs"
proof (cases "find_index (\<lambda>r. t_external_id r = t_external_id td) rows")
  case None
  then show ?thesis by (simp add: spec_upsert_def)
next
  case (Some i)
  from find_index_Some [OF Some] have i: "i < length rows" by simp
  then have "map t_id (rows[i := td\<lparr>t_id := t_id (rows ! i)\<rparr>]) = map t_id rows"
    by (simp add: map_update_same)
  with Some show ?thesis by (simp add: spec_upsert_def)
qed

lemma spec_upsert_distinct:
  "distinct (map t_external_id rows) \<Longrightarrow> distinct (map t_external_id (spec_upsert td rows))"
  by (simp add: spec_upsert_exts)

lemma fold_spec_upsert_distinct:
  "distinct (map t_external_id rows) \<Longrightarrow>
   distinct (map t_external_id (fold spec_upsert tds rows))"
  by (induction tds arbitrary: rows) (simp_all add: spec_upsert_distinct)

lemma fold_spec_upsert_prefix:
  "\<exists>zs ws. map t_external_id (fold spec_upsert tds rows) = map t_external_id rows @ zs
         \<and> map t_id (fold spec_upsert tds rows) = map t_id rows @ ws"
proof (induction tds arbitrary: rows)
  case Nil
  then show ?case by simp
next
  case (Cons td tds)
  from Cons [of "spec_upsert td rows"] obtain zs ws where
    a: "map t_external_id (fold spec_upsert tds (spec_upsert td rows))
          = map t_external_id (spec_upsert td rows) @ zs"
    and b: "map t_id (fold spec_upsert tds (spec_upsert td rows))
          = map t_id (spec_upsert td rows) @ ws" by blast
  from spec_upsert_ids [of td rows] obtain ws' where
    c: "map t_id (spec_upsert td rows) = map t_id rows @ ws'" ..
  have "\<exists>zs'. map t_external_id (spec_upsert td rows) = map t_external_id rows @ zs'"
    by (simp add: spec_upsert_exts)
  then obtain zs' where d: "map t_external_id (spec_upsert td rows) = map t_external_id rows @ zs'" ..
  from a b c d show ?case by simp
qed

lemma filter_update_other:
  assumes "i < length xs" and "\<not> P (xs ! i)" and "\<not> P y"
  shows "filter P (xs[i := y]) = filter P xs"
  using assms
proof (induction xs arbitrary: i)
  case Nil
  then show ?case by simp
next
  case (Cons x xs)
  then show ?case by (cases i) simp_all
qed

lemma spec_upsert_filter_other:
  assumes "t_external_id td \<noteq> X"
  shows "filter (\<lambda>r. t_external_id r = X) (spec_upsert td rows)
           = filter (\<lambda>r. t_external_id r = X) rows"
proof (cases "find_index (\<lambda>r. t_external_id r = t_external_id td) rows")
  case None
  with assms show ?thesis by (simp add: spec_upsert_def)
next
  case (Some i)
  from find_index_Some [OF Some] have i: "i < length rows"
    and x: "t_external_id (rows ! i) = t_external_id td" by simp_all
  from i x assms have "filter (\<lambda>r. t_external_id r = X) (rows[i := td\<lparr>t_id := t_id (rows ! i)\<rparr>])
           = filter (\<lambda>r. t_external_id r = X) rows"
    by (intro filter_update_other) simp_all
  with Some show ?thesis by (simp add: spec_upsert_def)
qed

lemma fold_spec_upsert_filter_other:
  assumes "\<forall>p \<in> set tds. t_external_id p \<noteq> X"
  shows "filter (\<lambda>r. t_external_id r = X) (fold spec_upsert tds rows)
           = filter (\<lambda>r. t_external_id r = X) rows"
  using assms
  by (induction tds arbitrary: rows) (simp_all add: spec_upsert_filter_other)

lemma filter_distinct_at:
  assumes "distinct (map f xs)" and "i < length xs" and "f y = f (xs ! i)"
  shows "filter (\<lambda>r. f r = f y) (xs[i := y]) = [y]"
proof -
  from assms(2) have xs: "xs = take i xs @ xs ! i # drop (Suc i) xs"
    by (rule id_take_nth_drop)
  from assms(1) have "distinct (map f (take i xs @ xs ! i # drop (Suc i) xs))"
    using xs by simp
  then have "f (xs ! i) \<notin> set (map f (take i xs))" "f (xs ! i) \<notin> set (map f (drop (Suc i) xs))"
    by auto
  then have "\<forall>r \<in> set (take i xs). f r \<noteq> f y" "\<forall>r \<in> set (drop (Suc i) xs). f r \<noteq> f y"
    using assms(3) by (metis imageI list.set_map)+
  then have "filter (\<lambda>r. f r = f y) (take i xs) = []"
    "filter (\<lambda>r. f r = f y) (drop (Suc i) xs) = []"
    by (simp_all add: filter_empty_conv)
  moreover from assms(2) have "xs[i := y] = take i xs @ y # drop (Suc i) xs"
    by (rule upd_conv_take_nth_drop)
  ultimately show ?thesis by simp
qed

lemma spec_upsert_filter_same:
  assumes "distinct (map t_external_id rows)"
  shows "\<exists>i. filter (\<lambda>r. t_external_id r = t_external_id td) (spec_upsert td rows)
               = [td\<lparr>t_id := i\<rparr>]"
proof (cases "find_index (\<lambda>r. t_external_id r = t_external_id td) rows")
  case None
  then have "\<forall>x \<in> set rows. t_external_id x \<noteq> t_external_id td"
    by (simp add: find_index_None)
  then have "filter (\<lambda>r. t_external_id r = t_external_id td) rows = []"
    by (simp add: filter_empty_conv)
  with None have "filter (\<lambda>r. t_external_id r = t_external_id td) (spec_upsert td rows)
               = [td\<lparr>t_id := Some (fresh_id (map t_id rows))\<rparr>]"
    by (simp add: spec_upsert_def)
  then show ?thesis ..
next
  case (Some i)
  from find_index_Some [OF Some] have i: "i < length rows"
    and x: "t_external_id (rows ! i) = t_external_id td" by simp_all
  let ?y = "td\<lparr>t_id := t_id (rows ! i)\<rparr>"
  from x have "t_external_id ?y = t_external_id (rows ! i)" by simp
  from filter_distinct_at [OF assms i this]
  have "filter (\<lambda>r. t_external_id r = t_external_id td) (rows[i := ?y]) = [?y]" by simp
  with Some have "filter (\<lambda>r. t_external_id r = t_external_id td) (spec_upsert td rows) = [?y]"
    by (simp add: spec_upsert_def)
  then show ?thesis ..
qed

lemma fold_spec_upsert_last:
  assumes "distinct (map t_external_id rows)"
    and "\<forall>p \<in> set post. t_external_id p \<noteq> t_external_id td"
  shows "\<exists>i. filter (\<lambda>r. t_external_id r = t_external_id td)
                (fold spec_upsert (pre @ td # post) rows) = [td\<lparr>t_id := i\<rparr>]"
proof -
  let ?mid = "fold spec_upsert pre rows"
  have "distinct (map t_external_id ?mid)"
    using assms(1) by (rule fold_spec_upsert_distinct)
  from spec_upsert_filter_same [OF this, of td] obtain i where
    "filter (\<lambda>r. t_external_id r = t_external_id td) (spec_upsert td ?mid) = [td\<lparr>t_id := i\<rparr>]" ..
  with fold_spec_upsert_filter_other [OF assms(2), of "spec_upsert td ?mid"]
  have "filter (\<lambda>r. t_external_id r = t_external_id td)
                (fold spec_upsert (pre @ td # post) rows) = [td\<lparr>t_id := i\<rparr>]" by simp
  then show ?thesis ..
qed

lemma fold_spec_upsert_in_place:
  assumes "filter (\<lambda>r. t_external_id r = X) (fold spec_upsert tds rows) = [y]"
    and "r0 \<in> set rows" and "t_external_id r0 = X"
  shows "t_id y = t_id r0"
proof -
  let ?F = "fold spec_upsert tds rows"
  from assms(2) obtain j where j: "j < length rows" and r0: "rows ! j = r0"
    by (auto simp: in_set_conv_nth)
  from fold_spec_upsert_prefix [of tds rows] obtain zs ws where
    e: "map t_external_id ?F = map t_external_id rows @ zs"
    and d: "map t_id ?F = map t_id rows @ ws" by blast
  from e have len: "length rows \<le> length ?F"
    by (metis length_map length_append le_add1)
  with j have jF: "j < length ?F" by simp
  have "t_external_id (?F ! j) = (map t_external_id ?F) ! j" using jF by simp
  also have "\<dots> = t_external_id (rows ! j)" using j by (simp add: e nth_append)
  finally have ext: "t_external_id (?F ! j) = X" using r0 assms(3) by simp
  have "t_id (?F ! j) = (map t_id ?F) ! j" using jF by simp
  also have "\<dots> = t_id (rows ! j)" using j by (simp add: d nth_append)
  finally have id: "t_id (?F ! j) = t_id r0" using r0 by simp
  from jF ext have "?F ! j \<in> set (filter (\<lambda>r. t_external_id r = X) ?F)" by simp
  with assms(1) have "?F ! j = y" by simp
  with id show ?thesis by simp
qed

text \<open>
  What a call that succeeds leaves: the tournaments table that the upsert of the spec gives
  when applied to the fetched records in turn.
\<close>

lemma get_tournaments_upsert:
  assumes "distinct (map t_external_id (tournaments store))"
    and "get_tournaments rget fromisoformat repr game status (get_db af fs store) = (Inr v, db')"
  shows "\<exists>data tds.
           PandaScoreAPI_get_tournaments rget game status 50 = Inr data
         \<and> mapE (tournament_dict fromisoformat repr) data = Inr tds
         \<and> tournaments (stored db') = fold spec_upsert tds (tournaments store)
         \<and> distinct (map t_external_id (tournaments (stored db')))
         \<and> (\<forall>pre td post.
               tds = pre @ td # post \<and> (\<forall>p \<in> set post. t_external_id p \<noteq> t_external_id td)
               \<longrightarrow> (\<exists>i. filter (\<lambda>r. t_external_id r = t_external_id td) (tournaments (stored db'))
                          = [td\<lparr>t_id := i\<rparr>]
                        \<and> (\<forall>r0 \<in> set (tournaments store).
                              t_external_id r0 = t_external_id td \<longrightarrow> i = t_id r0)))"
proof -
  from get_tournaments_Inr [OF assms(2)] obtain data tds where
    d: "PandaScoreAPI_get_tournaments rget game status 50 = Inr data"
    and m: "mapE (tournament_dict fromisoformat repr) data = Inr tds"
    and eq: "tournaments (stored db') = fold spec_upsert tds (tournaments store)"
    by blast
  have dist: "distinct (map t_external_id (tournaments (stored db')))"
    unfolding eq using assms(1) by (rule fold_spec_upsert_distinct)
  have last: "\<exists>i. filter (\<lambda>r. t_external_id r = t_external_id td) (tournaments (stored db'))
                          = [td\<lparr>t_id := i\<rparr>]
                        \<and> (\<forall>r0 \<in> set (tournaments store).
                              t_external_id r0 = t_external_id td \<longrightarrow> i = t_id r0)"
    if "tds = pre @ td # post \<and> (\<forall>p \<in> set post. t_external_id p \<noteq> t_external_id td)"
    for pre td post
  proof -
    from that have tds: "tds = pre @ td # post"
      and post: "\<forall>p \<in> set post. t_external_id p \<noteq> t_external_id td" by simp_all
    from fold_spec_upsert_last [OF assms(1) post, of pre] obtain i where
      f: "filter (\<lambda>r. t_external_id r = t_external_id td) (tournaments (stored db'))
            = [td\<lparr>t_id := i\<rparr>]"
      unfolding eq tds by blast
    have "i = t_id r0" if "r0 \<in> set (tournaments store)" "t_external_id r0 = t_external_id td"
      for r0
      using fold_spec_upsert_in_place [OF f [unfolded eq] that] by simp
    with f show ?thesis by blast
  qed
  from d m eq dist last show ?thesis by blast
qed

text \<open>The store that the examples start from is what a first fetch leaves.\<close>

lemma first_fetch_eval:
  "stored (snd (get_teams (provider first_fetch) plain_repr None
     (get_db True [] (stored (snd (get_tournaments (provider first_fetch) keep_text plain_repr
        None ''running,upcoming'' (get_db True [] empty_database)))))))
   = store_after_first"
  by code_simp

subsection \<open>When the call succeeds\<close>

lemma take_fault_none:
  assumes "faults s = []"
  shows "take_fault s = (None, s)"
  using assms by (simp add: take_fault_def)

lemma flush_no_fault:
  assumes "faults s = []" and "new_teams s = []" and "pending_ok s"
  shows "flush s =
     (Inr (), s\<lparr>txn := \<lparr>tournaments = view s, teams = teams (txn s)\<rparr>,
                 new_tournaments := [], new_teams := []\<rparr>)"
proof -
  from assms(3) have "insert_tournaments (tournaments (txn s)) (new_tournaments s)
      = Inr (view s)"
    unfolding pending_ok_def view_def by (rule insert_tournaments_insertable)
  with assms(1,2) show ?thesis
    by (simp add: flush_def take_fault_none)
qed

lemma insertable_Nil [simp]: "insertable rows []"
  by (simp add: insertable_def)

lemma commit_no_fault:
  assumes "faults s = []" and "new_teams s = []" and "pending_ok s"
  shows "\<exists>s1. commit s = (Inr (), s1)"
proof -
  let ?sf = "s\<lparr>txn := \<lparr>tournaments = view s, teams = teams (txn s)\<rparr>,
                 new_tournaments := [], new_teams := []\<rparr>"
  have "faults ?sf = []" using assms(1) by simp
  then have "take_fault ?sf = (None, ?sf)" by (rule take_fault_none)
  with flush_no_fault [OF assms] show ?thesis by (simp add: commit_def)
qed

text \<open>One record, no failing operation: the step succeeds when the external id is not
  already pending.\<close>

lemma upsert_tournament_no_fault:
  assumes f: "faults s = []" and nt: "new_teams s = []" and ok: "pending_ok s"
    and none: "t_id td = None"
    and cond: "autoflush s \<or> t_external_id td \<in> set (map t_external_id (tournaments (txn s)))
               \<or> t_external_id td \<notin> set (map t_external_id (new_tournaments s))"
  shows "\<exists>s1. upsert_tournament td s = (Inr (), s1)
           \<and> faults s1 = [] \<and> new_teams s1 = [] \<and> pending_ok s1
           \<and> autoflush s1 = autoflush s
           \<and> (\<not> autoflush s \<longrightarrow>
                 map t_external_id (tournaments (txn s1)) = map t_external_id (tournaments (txn s))
               \<and> set (map t_external_id (new_tournaments s1))
                   \<subseteq> set (map t_external_id (new_tournaments s))
                     \<union> ({t_external_id td} - set (map t_external_id (tournaments (txn s)))))"
proof -
  let ?X = "\<lambda>r. t_external_id r = t_external_id td"
  obtain sa where da: "do_autoflush s = (Inr (), sa)"
    and fa: "faults sa = []" and nta: "new_teams sa = []" and oka: "pending_ok sa"
    and same: "\<not> autoflush s \<longrightarrow> sa = s" and afa: "autoflush sa = autoflush s"
    and flushed: "autoflush s \<longrightarrow> new_tournaments sa = []"
  proof (cases "autoflush s")
    case False
    with f nt ok show ?thesis by (intro that [of s]) (simp_all add: do_autoflush_def)
  next
    case True
    let ?sf = "s\<lparr>txn := \<lparr>tournaments = view s, teams = teams (txn s)\<rparr>,
                 new_tournaments := [], new_teams := []\<rparr>"
    from True flush_no_fault [OF f nt ok] have "do_autoflush s = (Inr (), ?sf)"
      by (simp add: do_autoflush_def)
    moreover have "faults ?sf = []" "new_teams ?sf = []" "pending_ok ?sf"
      "new_tournaments ?sf = []"
      using f by (simp_all add: pending_ok_def)
    ultimately show ?thesis using True by (intro that [of ?sf]) simp_all
  qed
  let ?R = "tournaments (txn sa)" and ?P = "new_tournaments sa"
  from fa have tf: "take_fault sa = (None, sa)" by (rule take_fault_none)
  from da tf have qs: "query_tournament_first (t_external_id td) s
      = (Inr (find_index ?X ?R), sa)"
    by (simp add: query_tournament_first_def)
  show ?thesis
  proof (cases "find_index ?X ?R")
    case None
    let ?s1 = "sa\<lparr>new_tournaments := ?P @ [td]\<rparr>"
    from None qs have up: "upsert_tournament td s = (Inr (), ?s1)"
      by (simp add: upsert_tournament_def)
    from None have nr: "\<forall>x \<in> set ?R. t_external_id x \<noteq> t_external_id td"
      by (simp add: find_index_None)
    then have xr: "t_external_id td \<notin> set (map t_external_id ?R)" by auto
    have xp: "t_external_id td \<notin> set (map t_external_id ?P)"
    proof (cases "autoflush s")
      case True
      with flushed show ?thesis by simp
    next
      case False
      with same have "sa = s" by simp
      with cond False xr show ?thesis by simp
    qed
    from oka xr xp none have "pending_ok ?s1"
      by (auto simp: pending_ok_def insertable_def)
    moreover have "\<not> autoflush s \<longrightarrow>
                 map t_external_id (tournaments (txn ?s1)) = map t_external_id (tournaments (txn s))
               \<and> set (map t_external_id (new_tournaments ?s1))
                   \<subseteq> set (map t_external_id (new_tournaments s))
                     \<union> ({t_external_id td} - set (map t_external_id (tournaments (txn s))))"
      using same xr by auto
    ultimately show ?thesis using up fa nta afa by (intro exI [of _ ?s1]) simp
  next
    case (Some i)
    from find_index_Some [OF Some] have i: "i < length ?R"
      and x: "t_external_id (?R ! i) = t_external_id td" by simp_all
    let ?td = "td\<lparr>t_id := t_id (?R ! i)\<rparr>"
    let ?s1 = "sa\<lparr>txn := (txn sa)\<lparr>tournaments := ?R[i := ?td]\<rparr>\<rparr>"
    from Some qs have up: "upsert_tournament td s = (Inr (), ?s1)"
      by (simp add: upsert_tournament_def)
    have exts: "map t_external_id (?R[i := ?td]) = map t_external_id ?R"
      using i x by (simp add: map_update_same)
    from oka exts have "pending_ok ?s1"
      by (simp add: pending_ok_def insertable_def)
    moreover have "\<not> autoflush s \<longrightarrow>
                 map t_external_id (tournaments (txn ?s1)) = map t_external_id (tournaments (txn s))
               \<and> set (map t_external_id (new_tournaments ?s1))
                   \<subseteq> set (map t_external_id (new_tournaments s))
                     \<union> ({t_external_id td} - set (map t_external_id (tournaments (txn s))))"
      using same exts by auto
    ultimately show ?thesis using up fa nta afa by (intro exI [of _ ?s1]) simp
  qed
qed

lemma distinct_filter_Cons:
  assumes "distinct (filter p (x # xs))"
  shows "distinct (filter p xs) \<and> (p x \<longrightarrow> x \<notin> set xs)"
proof (cases "p x")
  case True
  with assms have "x \<notin> set (filter p xs)" and "distinct (filter p xs)" by simp_all
  with True show ?thesis by simp
next
  case False
  with assms show ?thesis by simp
qed

lemma process_tournaments_no_fault:
  assumes "mapE (tournament_dict f r) data = Inr tds"
    and "faults s = []" and "new_teams s = []" and "pending_ok s"
    and "autoflush s
         \<or> (distinct (filter (\<lambda>x. x \<notin> set (map t_external_id (tournaments (txn s))))
                        (map t_external_id tds))
            \<and> set (map t_external_id (new_tournaments s)) \<inter> set (map t_external_id tds) = {})"
  shows "\<exists>s'. process_tournaments f r data s = (Inr (), s')
           \<and> faults s' = [] \<and> new_teams s' = [] \<and> pending_ok s'"
  using assms
proof (induction data arbitrary: s tds)
  case Nil
  then show ?case by simp
next
  case (Cons t data)
  from Cons.prems(1) obtain td tds' where td: "tournament_dict f r t = Inr td"
    and m: "mapE (tournament_dict f r) data = Inr tds'" and tds: "tds = td # tds'"
    by (auto split: sum.splits)
  let ?R = "tournaments (txn s)" and ?P = "new_tournaments s"
  let ?p = "\<lambda>x. x \<notin> set (map t_external_id ?R)"
  have cond: "autoflush s \<or> t_external_id td \<in> set (map t_external_id ?R)
               \<or> t_external_id td \<notin> set (map t_external_id ?P)"
    using Cons.prems(5) tds by auto
  from upsert_tournament_no_fault
         [OF Cons.prems(2,3,4) tournament_dict_no_id [OF td] cond]
  obtain s1 where up: "upsert_tournament td s = (Inr (), s1)"
    and f1: "faults s1 = []" and nt1: "new_teams s1 = []" and ok1: "pending_ok s1"
    and af1: "autoflush s1 = autoflush s"
    and keep: "\<not> autoflush s \<longrightarrow>
                 map t_external_id (tournaments (txn s1)) = map t_external_id ?R
               \<and> set (map t_external_id (new_tournaments s1))
                   \<subseteq> set (map t_external_id ?P) \<union> ({t_external_id td} - set (map t_external_id ?R))"
    by blast
  have next_cond: "autoflush s1
         \<or> (distinct (filter (\<lambda>x. x \<notin> set (map t_external_id (tournaments (txn s1))))
                        (map t_external_id tds'))
            \<and> set (map t_external_id (new_tournaments s1)) \<inter> set (map t_external_id tds') = {})"
  proof (cases "autoflush s")
    case True
    with af1 show ?thesis by simp
  next
    case False
    with Cons.prems(5) tds have d: "distinct (filter ?p (t_external_id td # map t_external_id tds'))"
      and dj: "set (map t_external_id ?P) \<inter> set (map t_external_id tds') = {}"
      by auto
    from distinct_filter_Cons [OF d] have d': "distinct (filter ?p (map t_external_id tds'))"
      and new: "?p (t_external_id td) \<longrightarrow> t_external_id td \<notin> set (map t_external_id tds')"
      by simp_all
    from keep False have r1: "map t_external_id (tournaments (txn s1)) = map t_external_id ?R"
      and p1: "set (map t_external_id (new_tournaments s1))
                   \<subseteq> set (map t_external_id ?P) \<union> ({t_external_id td} - set (map t_external_id ?R))"
      by simp_all
    from p1 dj new have "set (map t_external_id (new_tournaments s1))
                           \<inter> set (map t_external_id tds') = {}"
      by blast
    with d' r1 show ?thesis by simp
  qed
  from Cons.IH [OF m f1 nt1 ok1 next_cond] obtain s' where
    "process_tournaments f r data s1 = (Inr (), s')"
    "faults s' = []" "new_teams s' = []" "pending_ok s'" by blast
  with td up show ?case by simp
qed

lemma PandaScoreAPI_get_tournaments_refused:
  assumes "str_truthy game \<and> the game \<notin> set (map fst SUPPORTED_GAMES)"
  shows "PandaScoreAPI_get_tournaments rget game status per_page
           = Inl (PyError ValueError unsupported_game)"
  unfolding PandaScoreAPI_get_tournaments_def using assms by (rule if_P)

lemma get_tournaments_no_fault:
  assumes d: "PandaScoreAPI_get_tournaments rget game status 50 = Inr data"
    and m: "mapE (tournament_dict f r) data = Inr tds"
    and c: "af \<or> distinct (filter (\<lambda>x. x \<notin> set (map t_external_id (tournaments store)))
                              (map t_external_id tds))"
  shows "\<exists>db'. get_tournaments rget f r game status (get_db af [] store)
                 = (Inr (JDict [(''tournaments'', JList data)]), db')"
proof -
  let ?db = "get_db af [] store"
  have ok: "\<not> (str_truthy game \<and> the game \<notin> set (map fst SUPPORTED_GAMES))"
  proof
    assume bad: "str_truthy game \<and> the game \<notin> set (map fst SUPPORTED_GAMES)"
    from d show False unfolding PandaScoreAPI_get_tournaments_refused [OF bad] by simp
  qed
  have f0: "faults ?db = []" by (simp add: get_db_def)
  have nt0: "new_teams ?db = []" by simp
  have ok0: "pending_ok ?db" by (simp add: pending_ok_def)
  have c0: "autoflush ?db
         \<or> (distinct (filter (\<lambda>x. x \<notin> set (map t_external_id (tournaments (txn ?db))))
                        (map t_external_id tds))
            \<and> set (map t_external_id (new_tournaments ?db)) \<inter> set (map t_external_id tds) = {})"
    using c by simp
  from process_tournaments_no_fault [OF m f0 nt0 ok0 c0] obtain s' where
    p: "process_tournaments f r data ?db = (Inr (), s')"
    and f': "faults s' = []" and nt': "new_teams s' = []" and ok': "pending_ok s'" by blast
  from commit_no_fault [OF f' nt' ok'] obtain s1 where cm: "commit s' = (Inr (), s1)" ..
  then have "commit_tournaments data s' = (Inr (JDict [(''tournaments'', JList data)]), s1)"
    by (simp add: commit_tournaments_def)
  with d p have "get_tournaments_body rget f r game status ?db
                   = (Inr (JDict [(''tournaments'', JList data)]), s1)"
    by (simp add: get_tournaments_body_accepted [OF ok])
  then have "get_tournaments rget f r game status ?db
                   = (Inr (JDict [(''tournaments'', JList data)]), s1)"
    by (simp add: get_tournaments_def)
  then show ?thesis ..
qed

lemma fold_spec_upsert_ext_set:
  "set (map t_external_id (fold spec_upsert tds rows))
     = set (map t_external_id rows) \<union> set (map t_external_id tds)"
proof (induction tds arbitrary: rows)
  case Nil
  then show ?case by simp
next
  case (Cons td tds)
  have "set (map t_external_id (spec_upsert td rows))
          = insert (t_external_id td) (set (map t_external_id rows))"
    unfolding spec_upsert_exts by auto
  with Cons [of "spec_upsert td rows"] show ?case by auto
qed

subsection \<open>The claim\<close>

text \<open>
  Claim C1, as stated, fails. The session looks a record up among the rows that the
  database has seen; with a session that does not flush before a query, a record whose
  external id came earlier in the same fetch, and has no row yet, is not found and is added
  a second time. The commit then violates the unique \<open>external_id\<close>, the handler rolls
  back and answers 500. Nothing is stored: no row is inserted for the external id that had
  none, and the values of the second record do not win.
\<close>

theorem get_tournaments_same_id_twice:
  "get_tournaments (provider same_id_twice) keep_text plain_repr None ''running,upcoming''
     (get_db False [] empty_database)
   = (Inl (HTTPException 500 ''Failed to save tournaments to database''),
      get_db False [] empty_database)
   \<and> tournaments (stored (get_db False [] empty_database)) = []"
  by code_simp

text \<open>
  Claim C1, amended. Let the fetch succeed, the records convert, the external ids of the
  store be unique and no operation of the database fail; let the session flush before a
  query, or else the external ids that the store lacks occur once each among the fetched
  records. Then \<open>GET /tournaments\<close> succeeds, and it leaves the tournaments table that the
  upsert of the spec gives when applied to the fetched records in turn: a record whose
  external id has a row overwrites the values of that row (same place, same \<open>id\<close>), any
  other record adds a row. The teams are untouched. The external ids stay unique and are
  those of the store and of the fetched records; the store holds exactly one row with the
  external id of a fetched record, with the values of the last record of that external id,
  and when the store had a row of that external id before the call, it is that row, under
  its \<open>id\<close>.
\<close>

theorem get_tournaments_reconciles:
  assumes "PandaScoreAPI_get_tournaments rget game status 50 = Inr data"
    and "mapE (tournament_dict fromisoformat repr) data = Inr tds"
    and "af \<or> distinct (filter (\<lambda>x. x \<notin> set (map t_external_id (tournaments store)))
                           (map t_external_id tds))"
    and "distinct (map t_external_id (tournaments store))"
  shows "\<exists>db'.
           get_tournaments rget fromisoformat repr game status (get_db af [] store)
             = (Inr (JDict [(''tournaments'', JList data)]), db')
         \<and> tournaments (stored db') = fold spec_upsert tds (tournaments store)
         \<and> teams (stored db') = teams store
         \<and> distinct (map t_external_id (tournaments (stored db')))
         \<and> set (map t_external_id (tournaments (stored db')))
             = set (map t_external_id (tournaments store)) \<union> set (map t_external_id tds)
         \<and> (\<forall>pre td post.
               tds = pre @ td # post \<and> (\<forall>p \<in> set post. t_external_id p \<noteq> t_external_id td)
               \<longrightarrow> (\<exists>i. filter (\<lambda>r. t_external_id r = t_external_id td) (tournaments (stored db'))
                          = [td\<lparr>t_id := i\<rparr>]
                        \<and> (\<forall>r0 \<in> set (tournaments store).
                              t_external_id r0 = t_external_id td \<longrightarrow> i = t_id r0)))"
proof -
  from get_tournaments_no_fault [OF assms(1,2,3)] obtain db' where
    run: "get_tournaments rget fromisoformat repr game status (get_db af [] store)
             = (Inr (JDict [(''tournaments'', JList data)]), db')" ..
  from get_tournaments_Inr [OF run] assms(1,2) have
    eq: "tournaments (stored db') = fold spec_upsert tds (tournaments store)"
    and tm: "teams (stored db') = teams store" by auto
  from get_tournaments_upsert [OF assms(4) run] obtain data' tds' where
    d': "PandaScoreAPI_get_tournaments rget game status 50 = Inr data'"
    and m': "mapE (tournament_dict fromisoformat repr) data' = Inr tds'"
    and dist: "distinct (map t_external_id (tournaments (stored db')))"
    and last': "\<forall>pre td post.
               tds' = pre @ td # post \<and> (\<forall>p \<in> set post. t_external_id p \<noteq> t_external_id td)
               \<longrightarrow> (\<exists>i. filter (\<lambda>r. t_external_id r = t_external_id td) (tournaments (stored db'))
                          = [td\<lparr>t_id := i\<rparr>]
                        \<and> (\<forall>r0 \<in> set (tournaments store).
                              t_external_id r0 = t_external_id td \<longrightarrow> i = t_id r0))"
    by blast
  from d' assms(1) have "data' = data" by simp
  with m' assms(2) have "tds' = tds" by simp
  note last = last' [unfolded this]
  have exts: "set (map t_external_id (tournaments (stored db')))
             = set (map t_external_id (tournaments store)) \<union> set (map t_external_id tds)"
    unfolding eq by (rule fold_spec_upsert_ext_set)
  from run eq tm dist exts last show ?thesis by blast
qed

text \<open>
  One call on the store of the first fetch, with a session that does not flush before a
  query: tournament 1 has a row and gets the new values under its \<open>id\<close>, tournament 2
  has none and gets a new row.
\<close>

lemma third_fetch_eval:
  "PandaScoreAPI_get_tournaments (provider third_fetch) None ''running,upcoming'' 50
     = Inr third_records"
  by code_simp

lemma third_dict_eval:
  "mapE (tournament_dict keep_text plain_repr) third_records
     = Inr [lck_row_updated\<lparr>t_id := None\<rparr>, vct_row\<lparr>t_id := None\<rparr>]"
  by code_simp

lemma third_upsert_eval:
  "fold spec_upsert [lck_row_updated\<lparr>t_id := None\<rparr>, vct_row\<lparr>t_id := None\<rparr>]
     (tournaments store_after_first) = [lck_row_updated, vct_row]"
  by code_simp

theorem get_tournaments_reconciles_witness:
  "PandaScoreAPI_get_tournaments (provider third_fetch) None ''running,upcoming'' 50
     = Inr third_records
   \<and> mapE (tournament_dict keep_text plain_repr) third_records
     = Inr [lck_row_updated\<lparr>t_id := None\<rparr>, vct_row\<lparr>t_id := None\<rparr>]
   \<and> distinct (filter (\<lambda>x. x \<notin> set (map t_external_id (tournaments store_after_first)))
                 (map t_external_id [lck_row_updated\<lparr>t_id := None\<rparr>, vct_row\<lparr>t_id := None\<rparr>]))
   \<and> distinct (map t_external_id (tournaments store_after_first))
   \<and> fst (get_tournaments (provider third_fetch) keep_text plain_repr None ''running,upcoming''
            (get_db False [] store_after_first))
     = Inr (JDict [(''tournaments'', JList third_records)])
   \<and> tournaments (stored (snd (get_tournaments (provider third_fetch) keep_text plain_repr None
                                  ''running,upcoming'' (get_db False [] store_after_first))))
     = [lck_row_updated, vct_row]
   \<and> tournaments store_after_first = [lck_row]"
proof -
  let ?tds = "[lck_row_updated\<lparr>t_id := None\<rparr>, vct_row\<lparr>t_id := None\<rparr>]"
  have c: "False \<or> distinct (filter (\<lambda>x. x \<notin> set (map t_external_id (tournaments store_after_first)))
                 (map t_external_id ?tds))"
    by (simp add: store_after_first_def lck_row_def lck_row_updated_def vct_row_def)
  have dist: "distinct (map t_external_id (tournaments store_after_first))"
    by (simp add: store_after_first_def)
  from get_tournaments_reconciles [OF third_fetch_eval third_dict_eval c dist] obtain db' where
    run: "get_tournaments (provider third_fetch) keep_text plain_repr None ''running,upcoming''
            (get_db False [] store_after_first)
          = (Inr (JDict [(''tournaments'', JList third_records)]), db')"
    and eq: "tournaments (stored db') = fold spec_upsert ?tds (tournaments store_after_first)"
    by blast
  from run have "fst (get_tournaments (provider third_fetch) keep_text plain_repr None
                        ''running,upcoming'' (get_db False [] store_after_first))
     = Inr (JDict [(''tournaments'', JList third_records)])" by simp
  moreover from eq have eq': "tournaments (stored db') = [lck_row_updated, vct_row]"
    by (simp only: third_upsert_eval)
  from run have "snd (get_tournaments (provider third_fetch) keep_text plain_repr None
                        ''running,upcoming'' (get_db False [] store_after_first)) = db'" by simp
  with eq' have "tournaments (stored (snd (get_tournaments (provider third_fetch)
       keep_text plain_repr None ''running,upcoming'' (get_db False [] store_after_first))))
     = [lck_row_updated, vct_row]" by (simp only:)
  moreover note this
  moreover from c have "distinct (filter (\<lambda>x. x \<notin> set (map t_external_id (tournaments store_after_first)))
                 (map t_external_id ?tds))" by simp
  moreover have "tournaments store_after_first = [lck_row]" by (simp add: store_after_first_def)
  ultimately show ?thesis using third_fetch_eval third_dict_eval dist by (intro conjI)
qed

text \<open>
  With a session that flushes before a query, the fetch that holds the same new tournament
  twice goes through: the first record adds the row, the second one overwrites it.
\<close>

lemma same_id_twice_with_autoflush:
  "fst (get_tournaments (provider same_id_twice) keep_text plain_repr None ''running,upcoming''
          (get_db True [] empty_database))
   = Inr (JDict [(''tournaments'',
                  JList [JDict [(''id'', JInt 1), (''name'', JStr ''first'')],
                         JDict [(''id'', JInt 1), (''name'', JStr ''second'')]])])
   \<and> map (\<lambda>r. (t_id r, t_external_id r, t_name r))
         (tournaments (stored (snd (get_tournaments (provider same_id_twice) keep_text plain_repr
                                      None ''running,upcoming'' (get_db True [] empty_database)))))
     = [(Some 1, ''1'', JStr ''second'')]"
  by code_simp

section \<open>Reconciliation of teams\<close>

lemma insert_teams_append:
  "insert_teams rows (ps @ qs) =
     (case insert_teams rows ps of Inl e \<Rightarrow> Inl e | Inr rows' \<Rightarrow> insert_teams rows' qs)"
  by (induction ps arbitrary: rows) simp_all

lemma insert_teams_exts:
  assumes "insert_teams rows ps = Inr rows'"
  shows "map team_external_id rows' = map team_external_id rows @ map team_external_id ps
         \<and> distinct (map team_external_id ps)
         \<and> set (map team_external_id ps) \<inter> set (map team_external_id rows) = {}"
  using assms
proof (induction ps arbitrary: rows)
  case Nil
  then show ?case by simp
next
  case (Cons p ps)
  let ?q = "p\<lparr>team_row_id :=
                Some (case team_row_id p of
                        None \<Rightarrow> fresh_id (map team_row_id rows) | Some i \<Rightarrow> i),
              team_rating := Some (case team_rating p of None \<Rightarrow> 1500 | Some r \<Rightarrow> r)\<rparr>"
  from Cons.prems have new: "team_external_id p \<notin> set (map team_external_id rows)"
    by (auto split: if_splits)
  with Cons.prems have ins: "insert_teams (rows @ [?q]) ps = Inr rows'"
    by (auto split: if_splits)
  from Cons.IH [OF ins] new show ?case by auto
qed

lemma do_autoflush_teams:
  assumes "do_autoflush s = (Inr u, sa)"
  shows "insert_teams (teams (txn s)) (new_teams s @ X)
           = insert_teams (teams (txn sa)) (new_teams sa @ X)
         \<and> (new_tournaments s = [] \<longrightarrow>
              new_tournaments sa = [] \<and> tournaments (txn sa) = tournaments (txn s))"
proof (cases "autoflush s")
  case False
  with assms have "sa = s" by (simp add: do_autoflush_def)
  then show ?thesis by simp
next
  case True
  with assms have "flush s = (Inr u, sa)" by (simp add: do_autoflush_def)
  from flush_Inr [OF this] obtain ts tms fs where
    it: "insert_tournaments (tournaments (txn s)) (new_tournaments s) = Inr ts"
    and im: "insert_teams (teams (txn s)) (new_teams s) = Inr tms"
    and sa: "sa = s\<lparr>faults := fs, txn := \<lparr>tournaments = ts, teams = tms\<rparr>,
                   new_tournaments := [], new_teams := []\<rparr>" by blast
  have "new_tournaments s = [] \<longrightarrow> ts = tournaments (txn s)" using it by auto
  with im sa show ?thesis by (simp add: insert_teams_append)
qed

lemma merge_team_Inr:
  assumes "merge_team team s = (Inr u, s1)" and "team_row_id team = None"
  shows "\<exists>sa. do_autoflush s = (Inr (), sa) \<and> s1 = sa\<lparr>new_teams := new_teams sa @ [team]\<rparr>"
proof -
  obtain ra sa where da: "do_autoflush s = (ra, sa)" by (cases "do_autoflush s")
  with assms(1) obtain u' where ra: "ra = Inr u'" by (cases ra) (simp_all add: merge_team_def)
  from assms da ra have "s1 = sa\<lparr>new_teams := new_teams sa @ [team]\<rparr>"
    by (simp add: merge_team_def)
  with da ra show ?thesis by simp
qed

lemma merge_team_stored:
  assumes "merge_team team s = (r, s1)" and "team_row_id team = None"
  shows "stored s1 = stored s"
proof -
  obtain ra sa where da: "do_autoflush s = (ra, sa)" by (cases "do_autoflush s")
  note st = do_autoflush_stored [OF da]
  have "stored s1 = stored sa"
  proof (cases ra)
    case (Inl e)
    with assms da have "s1 = sa" by (simp add: merge_team_def)
    then show ?thesis by simp
  next
    case (Inr u)
    with assms da have "s1 = sa\<lparr>new_teams := new_teams sa @ [team]\<rparr>"
      by (simp add: merge_team_def)
    then show ?thesis by simp
  qed
  with st show ?thesis by simp
qed

lemma make_team_no_id:
  assumes "make_team repr t = Inr team"
  shows "team_row_id team = None"
  using assms unfolding make_team_def
  by (elim bindE_InrE) auto

lemma process_teams_stored:
  assumes "process_teams repr data s = (res, s')"
  shows "stored s' = stored s"
  using assms
proof (induction data arbitrary: s)
  case Nil
  then show ?case by simp
next
  case (Cons t data)
  show ?case
  proof (cases "make_team repr t")
    case (Inl e)
    with Cons.prems have "s' = s" by simp
    then show ?thesis by simp
  next
    case (Inr team)
    obtain r1 s1 where mg: "merge_team team s = (r1, s1)" by (cases "merge_team team s")
    note st = merge_team_stored [OF mg make_team_no_id [OF Inr]]
    show ?thesis
    proof (cases r1)
      case (Inl e)
      with Cons.prems Inr mg have "s' = s1" by simp
      with st show ?thesis by simp
    next
      case r1: (Inr u1)
      with Cons.prems Inr mg have "process_teams repr data s1 = (res, s')" by simp
      from Cons.IH [OF this] st show ?thesis by simp
    qed
  qed
qed

lemma process_teams_Inr:
  assumes "process_teams repr data s = (Inr u, s')"
  shows "\<exists>tms. mapE (make_team repr) data = Inr tms
           \<and> insert_teams (teams (txn s)) (new_teams s @ tms)
               = insert_teams (teams (txn s')) (new_teams s')
           \<and> (new_tournaments s = [] \<longrightarrow>
                new_tournaments s' = [] \<and> tournaments (txn s') = tournaments (txn s))"
  using assms
proof (induction data arbitrary: s)
  case Nil
  then show ?case by simp
next
  case (Cons t data)
  from Cons.prems obtain team where tm: "make_team repr t = Inr team"
    by (cases "make_team repr t") simp_all
  obtain r1 s1 where mg: "merge_team team s = (r1, s1)" by (cases "merge_team team s")
  with Cons.prems tm obtain u1 where r1: "r1 = Inr u1" by (cases r1) simp_all
  from Cons.prems tm mg r1 have rest: "process_teams repr data s1 = (Inr u, s')" by simp
  from merge_team_Inr [OF mg [unfolded r1] make_team_no_id [OF tm]] obtain sa where
    da: "do_autoflush s = (Inr (), sa)"
    and s1: "s1 = sa\<lparr>new_teams := new_teams sa @ [team]\<rparr>" by blast
  from Cons.IH [OF rest] obtain tms where
    m: "mapE (make_team repr) data = Inr tms"
    and i: "insert_teams (teams (txn s1)) (new_teams s1 @ tms)
               = insert_teams (teams (txn s')) (new_teams s')"
    and t: "new_tournaments s1 = [] \<longrightarrow>
                new_tournaments s' = [] \<and> tournaments (txn s') = tournaments (txn s1)"
    by blast
  from do_autoflush_teams [OF da, of "team # tms"] have
    "insert_teams (teams (txn s)) (new_teams s @ team # tms)
       = insert_teams (teams (txn sa)) (new_teams sa @ team # tms)"
    and t0: "new_tournaments s = [] \<longrightarrow>
              new_tournaments sa = [] \<and> tournaments (txn sa) = tournaments (txn s)"
    by simp_all
  with i s1 have "insert_teams (teams (txn s)) (new_teams s @ team # tms)
               = insert_teams (teams (txn s')) (new_teams s')" by simp
  moreover have "mapE (make_team repr) (t # data) = Inr (team # tms)" using tm m by simp
  moreover have "new_tournaments s = [] \<longrightarrow>
                new_tournaments s' = [] \<and> tournaments (txn s') = tournaments (txn s)"
    using t t0 s1 by simp
  ultimately show ?case by blast
qed

lemma commit_teams:
  assumes "commit s = (Inr u, s1)"
  shows "insert_teams (teams (txn s)) (new_teams s) = Inr (teams (stored s1))
         \<and> (new_tournaments s = [] \<longrightarrow> tournaments (stored s1) = tournaments (txn s))"
proof -
  from commit_Inr [OF assms(1)] obtain sf fs where fl: "flush s = (Inr (), sf)"
    and s1: "s1 = sf\<lparr>faults := fs, stored := txn sf\<rparr>" by blast
  from flush_Inr [OF fl] obtain ts tms fs' where
    it: "insert_tournaments (tournaments (txn s)) (new_tournaments s) = Inr ts"
    and im: "insert_teams (teams (txn s)) (new_teams s) = Inr tms"
    and sf: "sf = s\<lparr>faults := fs', txn := \<lparr>tournaments = ts, teams = tms\<rparr>,
                   new_tournaments := [], new_teams := []\<rparr>" by blast
  have "new_tournaments s = [] \<longrightarrow> ts = tournaments (txn s)" using it by auto
  with im s1 sf show ?thesis by simp
qed

lemma get_teams_body_Inl:
  assumes "get_teams_body rget repr game db = (Inl e, db1)"
  shows "stored db1 = stored db"
proof (cases "PandaScoreAPI_get_teams rget repr game 50")
  case (Inl e')
  with assms have "db1 = db" by (simp add: get_teams_body_def)
  then show ?thesis by simp
next
  case (Inr data)
  obtain rp sp where p: "process_teams repr data db = (rp, sp)"
    by (cases "process_teams repr data db")
  note st = process_teams_stored [OF p]
  show ?thesis
  proof (cases rp)
    case (Inl e')
    with assms Inr p have "db1 = sp" by (simp add: get_teams_body_def)
    with st show ?thesis by simp
  next
    case Inr': (Inr u)
    obtain rc sc where c: "commit sp = (rc, sc)" by (cases "commit sp")
    with assms Inr p Inr' obtain ec where rc: "rc = Inl ec"
      by (cases rc) (simp_all add: get_teams_body_def)
    with assms Inr p Inr' c have "db1 = sc" by (simp add: get_teams_body_def)
    with commit_Inl [OF c [unfolded rc]] st show ?thesis by simp
  qed
qed

lemma get_teams_body_Inr:
  assumes "get_teams_body rget repr game db = (Inr v, db1)"
  shows "\<exists>data sp. PandaScoreAPI_get_teams rget repr game 50 = Inr data
           \<and> process_teams repr data db = (Inr (), sp)
           \<and> commit sp = (Inr (), db1) \<and> v = JDict [(''teams'', JList data)]"
proof -
  from assms obtain data where d: "PandaScoreAPI_get_teams rget repr game 50 = Inr data"
    by (cases "PandaScoreAPI_get_teams rget repr game 50") (simp_all add: get_teams_body_def)
  obtain rp sp where p: "process_teams repr data db = (rp, sp)"
    by (cases "process_teams repr data db")
  from assms d p obtain u where rp: "rp = Inr u"
    by (cases rp) (simp_all add: get_teams_body_def)
  obtain rc sc where c: "commit sp = (rc, sc)" by (cases "commit sp")
  from assms d p rp c obtain u' where rc: "rc = Inr u'"
    by (cases rc) (simp_all add: get_teams_body_def)
  from assms d p rp c rc have "db1 = sc" and "v = JDict [(''teams'', JList data)]"
    by (simp_all add: get_teams_body_def)
  with d p rp c rc show ?thesis by simp
qed

lemma get_teams_Inl:
  assumes "get_teams rget repr game db = (Inl e, db')"
  shows "(\<exists>d. e = HTTPException 500 d) \<and> stored db' = stored db"
proof -
  obtain rb sb where b: "get_teams_body rget repr game db = (rb, sb)"
    by (cases "get_teams_body rget repr game db")
  with assms obtain eb where rb: "rb = Inl eb"
    by (cases rb) (simp_all add: get_teams_def)
  from get_teams_body_Inl [OF b [unfolded rb]] have st: "stored sb = stored db" .
  from assms b rb have "e = HTTPException 500 (''Failed to fetch teams: '' @ exc_str eb)"
    and "db' = rollback sb"
    by (simp_all add: get_teams_def)
  with st show ?thesis by simp
qed

lemma get_teams_Inr:
  assumes "get_teams rget repr game (get_db af fs store) = (Inr v, db')"
  shows "\<exists>data tms. PandaScoreAPI_get_teams rget repr game 50 = Inr data
           \<and> v = JDict [(''teams'', JList data)]
           \<and> mapE (make_team repr) data = Inr tms
           \<and> insert_teams (teams store) tms = Inr (teams (stored db'))
           \<and> tournaments (stored db') = tournaments store"
proof -
  let ?db = "get_db af fs store"
  obtain rb sb where b: "get_teams_body rget repr game ?db = (rb, sb)"
    by (cases "get_teams_body rget repr game ?db")
  have body: "get_teams_body rget repr game ?db = (Inr v, db')"
  proof (cases rb)
    case (Inl eb)
    with assms b show ?thesis by (simp add: get_teams_def)
  next
    case (Inr v')
    with assms b show ?thesis by (simp add: get_teams_def)
  qed
  from get_teams_body_Inr [OF body] obtain data sp where
    d: "PandaScoreAPI_get_teams rget repr game 50 = Inr data"
    and p: "process_teams repr data ?db = (Inr (), sp)"
    and c: "commit sp = (Inr (), db')" and v: "v = JDict [(''teams'', JList data)]"
    by blast
  from process_teams_Inr [OF p] obtain tms where
    m: "mapE (make_team repr) data = Inr tms"
    and i: "insert_teams (teams store) tms = insert_teams (teams (txn sp)) (new_teams sp)"
    and t: "new_tournaments sp = [] \<and> tournaments (txn sp) = tournaments store"
    by auto
  from commit_teams [OF c] i t have "insert_teams (teams store) tms = Inr (teams (stored db'))"
    and "tournaments (stored db') = tournaments store" by simp_all
  with d v m show ?thesis by blast
qed

text \<open>
  A fetched team that the store already has makes the whole request fail: the object given
  to \<open>merge\<close> has no primary key, so it is inserted as a new row, and the unique
  \<open>external_id\<close> refuses it.
\<close>

lemma get_teams_known_team:
  assumes "PandaScoreAPI_get_teams rget repr game 50 = Inr data"
    and "t \<in> set data" and "make_team repr t = Inr team"
    and "team_external_id team \<in> set (map team_external_id (teams store))"
    and "get_teams rget repr game (get_db af fs store) = (res, db')"
  shows "(\<exists>d. res = Inl (HTTPException 500 d)) \<and> stored db' = store"
proof (cases res)
  case (Inl e)
  from get_teams_Inl [OF assms(5) [unfolded Inl]] Inl show ?thesis by auto
next
  case (Inr v)
  from get_teams_Inr [OF assms(5) [unfolded Inr]] assms(1) obtain tms where
    m: "mapE (make_team repr) data = Inr tms"
    and i: "insert_teams (teams store) tms = Inr (teams (stored db'))" by auto
  have "team \<in> set tms"
    using m assms(2,3)
  proof (induction data arbitrary: tms)
    case Nil
    then show ?case by simp
  next
    case (Cons a data)
    from Cons.prems(1) obtain y ys where a: "make_team repr a = Inr y"
      and ys: "mapE (make_team repr) data = Inr ys" and tms: "tms = y # ys"
      by (auto split: sum.splits)
    show ?case
    proof (cases "t = a")
      case True
      with a Cons.prems(3) tms show ?thesis by simp
    next
      case False
      with Cons.prems(2) have "t \<in> set data" by simp
      from Cons.IH [OF ys this Cons.prems(3)] tms show ?thesis by simp
    qed
  qed
  then have "team_external_id team \<in> set (map team_external_id tms)" by simp
  with insert_teams_exts [OF i] assms(4) have False by blast
  then show ?thesis ..
qed

text \<open>
  Claim C2, at a failing input. The store holds team 7 as a first \<open>GET /teams\<close> left it
  (name T1); the provider now returns team 7 under the name T1 Esports. The claim
  promises one row with the latest values; the request fails with status 500 and the row
  keeps the first values (with either setting of \<open>autoflush\<close>).
\<close>

theorem get_teams_second_fetch:
  "get_teams (provider second_fetch) plain_repr None (get_db True [] store_after_first)
   = (Inl (HTTPException 500
        ''Failed to fetch teams: UNIQUE constraint failed: teams.external_id''),
      get_db True [] store_after_first)
   \<and> get_teams (provider second_fetch) plain_repr None (get_db False [] store_after_first)
   = (Inl (HTTPException 500
        ''Failed to fetch teams: UNIQUE constraint failed: teams.external_id''),
      get_db False [] store_after_first)"
  by code_simp


section \<open>Atomicity of a batch\<close>

text \<open>
  Claim C5. Whatever the provider returns and whichever operation on the database fails,
  a \<open>GET /tournaments\<close> or \<open>GET /teams\<close> request ends in one of two ways: with an
  \<open>HTTPException\<close> and the store as it was before the request, or with its payload and
  the store holding the effect of every fetched record (all upserts for tournaments, all
  inserts for teams). In particular a failing commit of the tournaments batch gives status
  500 and a rolled-back session.
\<close>

theorem batch_atomic:
  "(get_tournaments rget fromisoformat repr game status (get_db af fs store) = (res, db') \<longrightarrow>
      (case res of
         Inl e \<Rightarrow> (\<exists>c d. e = HTTPException c d) \<and> stored db' = store
       | Inr v \<Rightarrow>
           (\<exists>data tds.
               PandaScoreAPI_get_tournaments rget game status 50 = Inr data
             \<and> mapE (tournament_dict fromisoformat repr) data = Inr tds
             \<and> stored db' = \<lparr>tournaments = fold spec_upsert tds (tournaments store),
                              teams = teams store\<rparr>)))
   \<and> (get_teams rget2 repr2 game2 (get_db af2 fs2 store2) = (res2, db2) \<longrightarrow>
      (case res2 of
         Inl e \<Rightarrow> (\<exists>d. e = HTTPException 500 d) \<and> stored db2 = store2
       | Inr v \<Rightarrow>
           (\<exists>data tms.
               PandaScoreAPI_get_teams rget2 repr2 game2 50 = Inr data
             \<and> mapE (make_team repr2) data = Inr tms
             \<and> insert_teams (teams store2) tms = Inr (teams (stored db2))
             \<and> tournaments (stored db2) = tournaments store2)))
   \<and> (commit s = (Inl e3, s3) \<longrightarrow>
        commit_tournaments data3 s
          = (Inl (HTTPException 500 ''Failed to save tournaments to database''), rollback s3)
        \<and> stored (rollback s3) = stored s \<and> txn (rollback s3) = stored s
        \<and> new_tournaments (rollback s3) = [] \<and> new_teams (rollback s3) = [])"
proof (intro conjI impI)
  assume run: "get_tournaments rget fromisoformat repr game status (get_db af fs store) = (res, db')"
  show "case res of
         Inl e \<Rightarrow> (\<exists>c d. e = HTTPException c d) \<and> stored db' = store
       | Inr v \<Rightarrow>
           (\<exists>data tds.
               PandaScoreAPI_get_tournaments rget game status 50 = Inr data
             \<and> mapE (tournament_dict fromisoformat repr) data = Inr tds
             \<and> stored db' = \<lparr>tournaments = fold spec_upsert tds (tournaments store),
                              teams = teams store\<rparr>)"
  proof (cases res)
    case (Inl e)
    from get_tournaments_Inl [OF run [unfolded Inl]] Inl show ?thesis by simp
  next
    case (Inr v)
    from get_tournaments_Inr [OF run [unfolded Inr]] obtain data tds where
      "PandaScoreAPI_get_tournaments rget game status 50 = Inr data"
      "mapE (tournament_dict fromisoformat repr) data = Inr tds"
      "tournaments (stored db') = fold spec_upsert tds (tournaments store)"
      "teams (stored db') = teams store" by blast
    moreover from this(3,4) have
      "stored db' = \<lparr>tournaments = fold spec_upsert tds (tournaments store), teams = teams store\<rparr>"
      by (cases "stored db'") simp
    ultimately show ?thesis using Inr by auto
  qed
next
  assume run: "get_teams rget2 repr2 game2 (get_db af2 fs2 store2) = (res2, db2)"
  show "case res2 of
         Inl e \<Rightarrow> (\<exists>d. e = HTTPException 500 d) \<and> stored db2 = store2
       | Inr v \<Rightarrow>
           (\<exists>data tms.
               PandaScoreAPI_get_teams rget2 repr2 game2 50 = Inr data
             \<and> mapE (make_team repr2) data = Inr tms
             \<and> insert_teams (teams store2) tms = Inr (teams (stored db2))
             \<and> tournaments (stored db2) = tournaments store2)"
  proof (cases res2)
    case (Inl e)
    from get_teams_Inl [OF run [unfolded Inl]] Inl show ?thesis by simp
  next
    case (Inr v)
    from get_teams_Inr [OF run [unfolded Inr]] Inr show ?thesis by auto
  qed
next
  assume c: "commit s = (Inl e3, s3)"
  then show "commit_tournaments data3 s
          = (Inl (HTTPException 500 ''Failed to save tournaments to database''), rollback s3)"
    by (simp add: commit_tournaments_def)
  from commit_Inl [OF c] show "stored (rollback s3) = stored s" by simp
  from commit_Inl [OF c] show "txn (rollback s3) = stored s" by (simp add: rollback_def)
  show "new_tournaments (rollback s3) = []" by (simp add: rollback_def)
  show "new_teams (rollback s3) = []" by (simp add: rollback_def)
qed

lemma failed_commit_eval:
  "get_tournaments (provider second_fetch) keep_text plain_repr None ''running,upcoming''
     (get_db False [None, Some ''server closed the connection''] store_after_first)
   = (Inl (HTTPException 500 ''Failed to save tournaments to database''),
      get_db False [] store_after_first)"
  by code_simp

lemma first_teams_eval:
  "get_teams (provider first_fetch) plain_repr None
     (get_db True [] \<lparr>tournaments = [lck_row], teams = []\<rparr>)
   = (Inr (JDict [(''teams'', JList [JDict [(''id'', JInt 7), (''name'', JStr ''T1''),
                                             (''acronym'', JStr ''T1'')]])]),
      get_db True [] store_after_first)"
  by code_simp

lemma commit_fails_eval:
  "commit (get_db False [Some ''server closed the connection''] store_after_first)
   = (Inl (PyError OperationalError ''server closed the connection''),
      get_db False [] store_after_first)"
  by code_simp

theorem batch_atomic_witness:
  "(get_tournaments (provider second_fetch) keep_text plain_repr None ''running,upcoming''
       (get_db False [None, Some ''server closed the connection''] store_after_first)
     = (Inl (HTTPException 500 ''Failed to save tournaments to database''),
        get_db False [] store_after_first)
    \<and> stored (get_db False [] store_after_first) = store_after_first)
   \<and> (get_teams (provider first_fetch) plain_repr None
         (get_db True [] \<lparr>tournaments = [lck_row], teams = []\<rparr>)
       = (Inr (JDict [(''teams'', JList [JDict [(''id'', JInt 7), (''name'', JStr ''T1''),
                                                 (''acronym'', JStr ''T1'')]])]),
          get_db True [] store_after_first)
      \<and> tournaments (stored (get_db True [] store_after_first)) = [lck_row])
   \<and> (commit (get_db False [Some ''server closed the connection''] store_after_first)
       = (Inl (PyError OperationalError ''server closed the connection''),
          get_db False [] store_after_first)
      \<and> commit_tournaments [] (get_db False [Some ''server closed the connection''] store_after_first)
          = (Inl (HTTPException 500 ''Failed to save tournaments to database''),
             rollback (get_db False [] store_after_first)))"
proof -
  note t = batch_atomic
    [of "provider second_fetch" keep_text plain_repr None "''running,upcoming''" False
        "[None, Some ''server closed the connection'']" store_after_first
        "Inl (HTTPException 500 ''Failed to save tournaments to database'')"
        "get_db False [] store_after_first"
        "provider first_fetch" plain_repr None True "[]"
        "\<lparr>tournaments = [lck_row], teams = []\<rparr>"
        "Inr (JDict [(''teams'', JList [JDict [(''id'', JInt 7), (''name'', JStr ''T1''),
                                                 (''acronym'', JStr ''T1'')]])])"
        "get_db True [] store_after_first"
        "get_db False [Some ''server closed the connection''] store_after_first"
        "PyError OperationalError ''server closed the connection''"
        "get_db False [] store_after_first" "[]"]
  from t [THEN conjunct1, THEN mp, OF failed_commit_eval]
  have a: "stored (get_db False [] store_after_first) = store_after_first" by simp
  from t [THEN conjunct2, THEN conjunct1, THEN mp, OF first_teams_eval]
  have b: "tournaments (stored (get_db True [] store_after_first)) = [lck_row]" by auto
  from t [THEN conjunct2, THEN conjunct2, THEN mp, OF commit_fails_eval]
  have c: "commit_tournaments [] (get_db False [Some ''server closed the connection''] store_after_first)
          = (Inl (HTTPException 500 ''Failed to save tournaments to database''),
             rollback (get_db False [] store_after_first))" by simp
  from a b c failed_commit_eval first_teams_eval commit_fails_eval
  show ?thesis by (intro conjI)
qed

section \<open>The win rate\<close>

lemma sum_wins_dicts:
  "sum_wins acc (map JDict ms) team_id = Inr (acc + int (length (filter (is_win team_id) ms)))"
  by (induction ms arbitrary: acc) (simp_all add: is_win_def)

lemma round_half_even_bounds:
  "\<bar>of_int (round_half_even y) - y\<bar> \<le> 1 / 2"
proof -
  let ?n = "\<lfloor>y\<rfloor>" and ?f = "y - of_int \<lfloor>y\<rfloor>"
  have f: "0 \<le> ?f" "?f < 1" by linarith+
  consider "?f < 1 / 2" | "1 / 2 < ?f" | "?f = 1 / 2" by linarith
  then show ?thesis
  proof cases
    case 1
    then have "round_half_even y = ?n" by (simp add: round_half_even_def Let_def)
    with 1 f show ?thesis by simp
  next
    case 2
    then have "round_half_even y = ?n + 1" by (simp add: round_half_even_def Let_def)
    with 2 f show ?thesis by simp
  next
    case 3
    then have "round_half_even y = ?n \<or> round_half_even y = ?n + 1"
      by (simp add: round_half_even_def Let_def)
    with 3 show ?thesis by auto
  qed
qed

lemma pow2_pos: "0 < pow2 e"
  by (simp add: pow2_def)

lemma fl64_error:
  assumes "x \<noteq> 0"
  shows "\<bar>fl64 x - x\<bar> \<le> pow2 (max (floor_log2 \<bar>x\<bar>) (- 1022) - 52) / 2"
proof -
  let ?u = "pow2 (max (floor_log2 \<bar>x\<bar>) (- 1022) - 52)"
  have u: "0 < ?u" by (rule pow2_pos)
  have "fl64 x - x = (of_int (round_half_even (x / ?u)) - x / ?u) * ?u"
    using assms u by (simp add: fl64_def Let_def algebra_simps)
  then have "\<bar>fl64 x - x\<bar> = \<bar>of_int (round_half_even (x / ?u)) - x / ?u\<bar> * ?u"
    using u by (simp add: abs_mult)
  also have "\<dots> \<le> (1 / 2) * ?u"
    using round_half_even_bounds [of "x / ?u"] u by (intro mult_right_mono) simp_all
  finally show ?thesis by simp
qed

lemma pow2_powi: "pow2 e = 2 powi e"
  by (simp add: pow2_def power_int_def power_inverse inverse_eq_divide power_one_over)

lemma pow2_mono: "a \<le> b \<Longrightarrow> pow2 a \<le> pow2 b"
  by (simp add: pow2_powi power_int_increasing)

lemma pow2_diff: "pow2 (a - b) = pow2 a / pow2 b"
  by (simp add: pow2_powi power_int_diff)

lemma pow2_nat: "0 \<le> a \<Longrightarrow> pow2 a = 2 ^ nat a"
  by (simp add: pow2_def)

lemma floor_log2_bounds:
  assumes "0 < x"
  shows "pow2 (floor_log2 x) \<le> x \<and> x < pow2 (floor_log2 x + 1)"
proof -
  obtain a b where q: "quotient_of x = (a, b)" by (cases "quotient_of x")
  from quotient_of_denom_pos [OF q] have b: "0 < b" .
  from quotient_of_div [OF q] have x: "x = of_int a / of_int b" .
  with assms b have a: "0 < a" by (simp add: zero_less_divide_iff)
  let ?k = "bitlen a - bitlen b"
  from bitlen_bounds [OF a] have a1: "2 ^ nat (bitlen a - 1) \<le> a" and a2: "a < 2 ^ nat (bitlen a)"
    by simp_all
  from bitlen_bounds [OF b] have b1: "2 ^ nat (bitlen b - 1) \<le> b" and b2: "b < 2 ^ nat (bitlen b)"
    by simp_all
  have la: "1 \<le> bitlen a" using a by (auto simp: bitlen_alt_def)
  have lb: "1 \<le> bitlen b" using b by (auto simp: bitlen_alt_def)
  have ra1: "pow2 (bitlen a - 1) \<le> of_int a"
  proof -
    have "(of_int (2 ^ nat (bitlen a - 1)) :: rat) \<le> of_int a" using a1 by (simp only: of_int_le_iff)
    then show ?thesis using la by (simp add: pow2_nat)
  qed
  have ra2: "of_int a < pow2 (bitlen a)"
  proof -
    have "(of_int a :: rat) < of_int (2 ^ nat (bitlen a))" using a2 by (simp only: of_int_less_iff)
    then show ?thesis using la by (simp add: pow2_nat)
  qed
  have rb1: "pow2 (bitlen b - 1) \<le> of_int b"
  proof -
    have "(of_int (2 ^ nat (bitlen b - 1)) :: rat) \<le> of_int b" using b1 by (simp only: of_int_le_iff)
    then show ?thesis using lb by (simp add: pow2_nat)
  qed
  have rb2: "of_int b < pow2 (bitlen b)"
  proof -
    have "(of_int b :: rat) < of_int (2 ^ nat (bitlen b))" using b2 by (simp only: of_int_less_iff)
    then show ?thesis using lb by (simp add: pow2_nat)
  qed
  have rb: "(0 :: rat) < of_int b" using b by simp
  have ra: "(0 :: rat) < of_int a" using a by simp
  have low: "pow2 (?k - 1) \<le> x"
  proof -
    have "pow2 (?k - 1) = pow2 (bitlen a - 1) / pow2 (bitlen b)"
      using pow2_diff [of "bitlen a - 1" "bitlen b"] by (simp add: algebra_simps)
    also have "\<dots> \<le> of_int a / pow2 (bitlen b)"
      using ra1 pow2_pos [of "bitlen b"] by (simp add: divide_right_mono)
    also have "\<dots> \<le> of_int a / of_int b"
      using rb2 rb ra by (intro divide_left_mono) (simp_all add: pow2_pos)
    finally show ?thesis by (simp add: x)
  qed
  have high: "x < pow2 (?k + 1)"
  proof -
    have "x = of_int a / of_int b" by (rule x)
    also have "\<dots> < pow2 (bitlen a) / of_int b"
      using ra2 rb by (simp add: divide_strict_right_mono)
    also have "\<dots> \<le> pow2 (bitlen a) / pow2 (bitlen b - 1)"
      using rb1 rb by (intro divide_left_mono) (simp_all add: pow2_pos less_imp_le)
    also have "\<dots> = pow2 (?k + 1)"
      using pow2_diff [of "bitlen a" "bitlen b - 1"] by (simp add: algebra_simps)
    finally show ?thesis .
  qed
  show ?thesis
  proof (cases "pow2 ?k \<le> x")
    case True
    with q have "floor_log2 x = ?k" by (simp add: floor_log2_def)
    with True high show ?thesis by simp
  next
    case False
    with q have "floor_log2 x = ?k - 1" by (simp add: floor_log2_def)
    with False low show ?thesis by simp
  qed
qed

lemma fl64_relative:
  assumes "pow2 (- 1022) \<le> x"
  shows "\<bar>fl64 x - x\<bar> \<le> x / 2 ^ 53"
proof -
  from assms pow2_pos [of "- 1022"] have pos: "0 < x" by linarith
  from floor_log2_bounds [OF pos] have lo: "pow2 (floor_log2 x) \<le> x"
    and hi: "x < pow2 (floor_log2 x + 1)" by simp_all
  have e: "- 1022 \<le> floor_log2 x"
  proof (rule ccontr)
    assume "\<not> - 1022 \<le> floor_log2 x"
    then have "floor_log2 x + 1 \<le> - 1022" by simp
    from pow2_mono [OF this] hi assms show False by linarith
  qed
  from pos have "x \<noteq> 0" by simp
  from fl64_error [OF this] pos e
  have "\<bar>fl64 x - x\<bar> \<le> pow2 (floor_log2 x - 52) / 2" by (simp add: max_def)
  also have "\<dots> = pow2 (floor_log2 x) / 2 ^ 53"
    by (simp add: pow2_diff pow2_nat)
  also have "\<dots> \<le> x / 2 ^ 53" using lo by (simp add: divide_right_mono)
  finally show ?thesis .
qed

lemma round_half_even_nonneg: "0 \<le> y \<Longrightarrow> 0 \<le> round_half_even y"
  by (auto simp: round_half_even_def Let_def)

lemma fl64_nonneg: "0 \<le> x \<Longrightarrow> 0 \<le> fl64 x"
  by (auto simp: fl64_def Let_def pow2_pos less_imp_le round_half_even_nonneg
           intro!: mult_nonneg_nonneg)

lemma fl64_small:
  assumes "0 \<le> x" and "x \<le> 1"
  shows "fl64 x \<le> 2"
proof (cases "x = 0")
  case True
  then show ?thesis by (simp add: fl64_def)
next
  case False
  with assms have pos: "0 < x" by simp
  from floor_log2_bounds [OF pos] assms(2) have "pow2 (floor_log2 x) \<le> pow2 0"
    by (simp add: pow2_def)
  have fl: "floor_log2 x \<le> 0"
  proof (rule ccontr)
    assume "\<not> floor_log2 x \<le> 0"
    then have "1 \<le> floor_log2 x" by simp
    from pow2_mono [OF this] floor_log2_bounds [OF pos] assms(2) show False
      by (simp add: pow2_def)
  qed
  let ?e = "max (floor_log2 \<bar>x\<bar>) (- 1022)"
  from fl pos have "?e - 52 \<le> 0" by simp
  from pow2_mono [OF this] have u: "pow2 (?e - 52) \<le> 1" by (simp add: pow2_def)
  from fl64_error [OF False] have "fl64 x - x \<le> pow2 (?e - 52) / 2" by linarith
  with u assms(2) show ?thesis by linarith
qed

lemma fl64_exact_values: "fl64 0 = 0" "fl64 1 = 1" "fl64 100 = 100"
  by code_simp+

lemma calculate_win_rate_dicts:
  assumes "ms \<noteq> []"
  shows "calculate_win_rate (JList (map JDict ms)) team_id
     = Inr (fl64 (fl64 (of_nat (length (filter (is_win team_id) ms)) / of_nat (length ms)) * 100))"
proof -
  let ?W = "length (filter (is_win team_id) ms)" and ?N = "length ms"
  let ?x = "(of_nat ?W :: rat) / of_nat ?N"
  from assms have N: "0 < ?N" by simp
  have "?W \<le> ?N" by (rule length_filter_le)
  then have x: "0 \<le> ?x" "?x \<le> 1" using N by (simp_all add: divide_le_eq)
  from fl64_nonneg [OF x(1)] fl64_small [OF x] have "\<bar>fl64 ?x\<bar> \<le> 2" by simp
  then have "\<not> 2 ^ 1024 \<le> \<bar>fl64 ?x\<bar>" by simp
  moreover have "(of_int (int ?W) :: rat) / of_int (int ?N) = ?x" by simp
  ultimately have "py_truediv (int ?W) (int ?N) = Inr (fl64 ?x)"
    using N unfolding py_truediv_def by simp
  with assms show ?thesis
    by (simp add: calculate_win_rate_def sum_wins_dicts float_mul_def)
qed

lemma two_roundings:
  fixes x q r :: rat
  assumes "\<bar>q - x\<bar> \<le> x / 2 ^ 53" and "0 < x"
  shows "x \<le> q * 100"
    and "\<bar>r - q * 100\<bar> \<le> q * 100 / 2 ^ 53 \<Longrightarrow> \<bar>r - x * 100\<bar> \<le> x * 100 / 2 ^ 51"
proof -
  have p: "(2 :: rat) ^ 53 = 9007199254740992" "(2 :: rat) ^ 51 = 2251799813685248"
    by simp_all
  from assms show "x \<le> q * 100" unfolding p by linarith
  assume "\<bar>r - q * 100\<bar> \<le> q * 100 / 2 ^ 53"
  with assms show "\<bar>r - x * 100\<bar> \<le> x * 100 / 2 ^ 51" unfolding p by linarith
qed

text \<open>
  Claim C4, as stated, fails. With 11 wins in 20 matches the exact rate is 55, a number
  that a float can hold, and the function returns the next float above it
  (55.00000000000001); with 1 win in 3 matches it returns 33.33333333333333, which is
  neither 100/3 nor the float nearest to it.
\<close>

theorem calculate_win_rate_wrong_at_11_of_20:
  "calculate_win_rate
     (JList (replicate 11 (JDict [(''winner_id'', JInt 7)])
             @ replicate 9 (JDict [(''winner_id'', JInt 8)]))) (JInt 7)
     = Inr (7740561859543041 / 140737488355328)
   \<and> (7740561859543041 / 140737488355328 :: rat) \<noteq> 11 / 20 * 100
   \<and> calculate_win_rate
       (JList [JDict [(''winner_id'', JInt 7)], JDict [(''winner_id'', JInt 8)],
               JDict [(''winner_id'', JInt 8)]]) (JInt 7)
     = Inr (2345624805922133 / 70368744177664)
   \<and> (2345624805922133 / 70368744177664 :: rat) \<noteq> 1 / 3 * 100"
  by code_simp

text \<open>
  Claim C4, amended. The win rate of an empty list is 0.0. For a non-empty list of \<open>N\<close>
  match records of which \<open>W\<close> are wins of the team, the function returns the float
  product by 100 of the float quotient \<open>W / N\<close>, each rounded to the nearest double: the
  result is 0.0 when \<open>W = 0\<close>, 100.0 when \<open>W = N\<close>, and (for a list of fewer than \<open>2 ^ 63\<close>
  records, as every Python list is) within the relative error \<open>2 ^ - 51\<close> of
  \<open>(W / N) \<times> 100\<close>.
\<close>

theorem calculate_win_rate_rounded:
  "calculate_win_rate (JList []) team_id = Inr 0
   \<and> (ms \<noteq> [] \<longrightarrow>
        (let W = length (filter (is_win team_id) ms); N = length ms;
             exact = (of_nat W :: rat) / of_nat N * 100
         in \<exists>r. calculate_win_rate (JList (map JDict ms)) team_id = Inr r
              \<and> r = fl64 (fl64 (of_nat W / of_nat N) * 100)
              \<and> (W = 0 \<longrightarrow> r = 0) \<and> (W = N \<longrightarrow> r = 100)
              \<and> (N < 2 ^ 63 \<longrightarrow> \<bar>r - exact\<bar> \<le> exact / 2 ^ 51)))"
proof (intro conjI impI)
  show "calculate_win_rate (JList []) team_id = Inr 0"
    by (simp add: calculate_win_rate_def)
next
  assume ne: "ms \<noteq> []"
  let ?W = "length (filter (is_win team_id) ms)" and ?N = "length ms"
  let ?x = "(of_nat ?W :: rat) / of_nat ?N"
  let ?q = "fl64 ?x"
  let ?r = "fl64 (?q * 100)"
  from ne have N: "0 < ?N" by simp
  have WN: "?W \<le> ?N" by (rule length_filter_le)
  have zero: "?r = 0" if "?W = 0" using that by (simp add: fl64_exact_values)
  have full: "?r = 100" if "?W = ?N" using that N by (simp add: fl64_exact_values)
  have bound: "\<bar>?r - ?x * 100\<bar> \<le> ?x * 100 / 2 ^ 51" if small: "?N < 2 ^ 63"
  proof (cases "?W = 0")
    case True
    then show ?thesis by (simp add: fl64_exact_values)
  next
    case False
    then have W: "1 \<le> ?W" by (simp add: Suc_le_eq)
    have "(of_nat ?N :: rat) < of_nat (2 ^ 63)" using small by (simp only: of_nat_less_iff)
    then have Nr: "(of_nat ?N :: rat) < 2 ^ 63" by simp
    have Np: "(0 :: rat) < of_nat ?N" using N by simp
    have "(1 :: rat) / 2 ^ 63 < 1 / of_nat ?N"
      using Nr Np by (simp add: divide_strict_left_mono)
    also have "\<dots> \<le> ?x" using W Np by (simp add: divide_right_mono)
    finally have x63: "1 / 2 ^ 63 < ?x" .
    have "pow2 (- 1022) \<le> pow2 (- 63)" by (rule pow2_mono) simp
    also have "\<dots> = 1 / 2 ^ 63" by (simp add: pow2_def)
    finally have p63: "pow2 (- 1022) \<le> 1 / 2 ^ 63" .
    from p63 x63 have xn: "pow2 (- 1022) \<le> ?x" by linarith
    from fl64_relative [OF xn] have q: "\<bar>?q - ?x\<bar> \<le> ?x / 2 ^ 53" .
    have "(0 :: rat) < 1 / 2 ^ 63" by simp
    with x63 have xpos: "0 < ?x" by linarith
    from two_roundings(1) [OF q xpos] have "?x \<le> ?q * 100" .
    with xn have "pow2 (- 1022) \<le> ?q * 100" by linarith
    from fl64_relative [OF this] have r: "\<bar>?r - ?q * 100\<bar> \<le> ?q * 100 / 2 ^ 53" .
    from two_roundings(2) [OF q xpos r] show ?thesis .
  qed
  show "let W = length (filter (is_win team_id) ms); N = length ms;
             exact = (of_nat W :: rat) / of_nat N * 100
         in \<exists>r. calculate_win_rate (JList (map JDict ms)) team_id = Inr r
              \<and> r = fl64 (fl64 (of_nat W / of_nat N) * 100)
              \<and> (W = 0 \<longrightarrow> r = 0) \<and> (W = N \<longrightarrow> r = 100)
              \<and> (N < 2 ^ 63 \<longrightarrow> \<bar>r - exact\<bar> \<le> exact / 2 ^ 51)"
    unfolding Let_def
    using calculate_win_rate_dicts [OF ne, of team_id] zero full bound by blast
qed

lemma fl64_third: "fl64 (fl64 (1 / 3) * 100) = 2345624805922133 / 70368744177664"
  by code_simp

theorem calculate_win_rate_rounded_witness:
  "([[(''winner_id'', JInt 7)], [(''winner_id'', JInt 8)], [(''winner_id'', JInt 8)]] \<noteq> []
    \<and> calculate_win_rate
         (JList (map JDict [[(''winner_id'', JInt 7)], [(''winner_id'', JInt 8)],
                            [(''winner_id'', JInt 8)]])) (JInt 7)
       = Inr (2345624805922133 / 70368744177664)
    \<and> \<bar>2345624805922133 / 70368744177664 - (1 / 3 * 100 :: rat)\<bar> \<le> 1 / 3 * 100 / 2 ^ 51)
   \<and> calculate_win_rate (JList (map JDict [[(''winner_id'', JInt 8)]])) (JInt 7) = Inr 0
   \<and> calculate_win_rate (JList (map JDict [[(''winner_id'', JInt 7)]])) (JInt 7) = Inr 100"
proof -
  let ?w = "[(''winner_id'', JInt 7)]" and ?l = "[(''winner_id'', JInt 8)]"
  have w: "is_win (JInt 7) ?w" and l: "\<not> is_win (JInt 7) ?l"
    by (simp_all add: is_win_def)
  have ne: "[?w, ?l, ?l] \<noteq> []" by simp
  from calculate_win_rate_rounded [of "JInt 7" "[?w, ?l, ?l]", THEN conjunct2, THEN mp, OF ne]
  obtain r where c: "calculate_win_rate (JList (map JDict [?w, ?l, ?l])) (JInt 7) = Inr r"
    and r: "r = fl64 (fl64 (1 / 3) * 100)"
    and b: "\<bar>r - 1 / 3 * 100\<bar> \<le> 1 / 3 * 100 / 2 ^ 51"
    using w l by (auto simp: Let_def)
  from calculate_win_rate_rounded [of "JInt 7" "[?l]", THEN conjunct2, THEN mp]
  have z: "calculate_win_rate (JList (map JDict [?l])) (JInt 7) = Inr 0"
    using l by (auto simp: Let_def)
  from calculate_win_rate_rounded [of "JInt 7" "[?w]", THEN conjunct2, THEN mp]
  have f: "calculate_win_rate (JList (map JDict [?w])) (JInt 7) = Inr 100"
    using w by (auto simp: Let_def)
  from c r b z f ne show ?thesis unfolding fl64_third by (intro conjI) simp_all
qed

end
